theory Spec2Isabelle
  imports Complex_Main "HOL-Library.Log_Nat"
begin

section \<open>The circular metronome: a shallow embedding of the React components\<close>

text \<open>
  The repository holds two circular metronome components with the same beat engine and
  the same press-and-hold tempo controls: the plain one (\<^verbatim>\<open>part_000\<close>) and the
  trial-gated one with tap tempo and the slowdown ramp (\<^verbatim>\<open>part_001\<close>). The pendulum
  component shares the tempo controls of the plain component word for word. The two
  circular components are told apart by a \<open>variant\<close> parameter wherever their code differs.

  Conventions of the embedding:
  \<^item> a JavaScript \<^verbatim>\<open>number\<close> is a \<open>real\<close>. In the beat engine and in the tap-tempo
    estimate, where a quotient is floored, rounded or compared, every arithmetic
    operation is followed by the rounding \<open>fl\<close> of IEEE binary64 (to nearest, ties to
    even); \<^verbatim>\<open>%\<close> is exact on doubles and is not rounded. The exponent range is not
    bounded: overflow and subnormal numbers are not modelled. Sums and differences of
    small whole numbers (the tempo steps, the timer table) are exact in binary64 and are
    written without \<open>fl\<close>; so are the anchor written by the slowdown ramp and the zoom
    scale, continuous quantities that nothing floors or rounds. Where the code can divide
    by zero the IEEE result is written out as a branch;
  \<^item> every handler, effect body and timer callback is a function from the component
    state to the component state; a \<^verbatim>\<open>setX\<close> call takes effect at once, and a handler
    reads the state it is applied to;
  \<^item> a clock read (\<^verbatim>\<open>performance.now()\<close>, \<^verbatim>\<open>Date.now()\<close>, the frame timestamp) is
    an argument of the function that reads it;
  \<^item> the host's timers (\<^verbatim>\<open>setInterval\<close>, \<^verbatim>\<open>setTimeout\<close>) are a table inside the state,
    and the Web Audio backend is a counter of the tones started.
\<close>

subsection \<open>JavaScript arithmetic\<close>

text \<open>\<^verbatim>\<open>Math.round\<close> rounds half up, \<^verbatim>\<open>%\<close> truncates towards zero and takes the sign of
  the dividend.\<close>

definition Math_round :: "real \<Rightarrow> real" where
  "Math_round x = of_int \<lfloor>x + 1 / 2\<rfloor>"

definition Math_floor :: "real \<Rightarrow> real" where
  "Math_floor x = of_int \<lfloor>x\<rfloor>"

definition js_rem :: "real \<Rightarrow> real \<Rightarrow> real" where
  "js_rem a b = a - b * of_int (if a / b < 0 then \<lceil>a / b\<rceil> else \<lfloor>a / b\<rfloor>)"

text \<open>Rounding to binary64. \<open>expo x\<close> is the exponent of the binade of \<open>x\<close>
  (\<open>2 powi expo x \<le> \<bar>x\<bar> < 2 powi (expo x + 1)\<close>), \<open>roundEven\<close> rounds to the nearest integer
  with ties to the even one, and \<open>fl x\<close> is the multiple of \<open>2 powi (expo x - 52)\<close> nearest
  to \<open>x\<close>: the double a correctly rounded operation with the exact result \<open>x\<close> returns.\<close>

definition expo :: "real \<Rightarrow> int" where
  "expo x = (if \<bar>x\<bar> \<ge> 1 then bitlen \<lfloor>\<bar>x\<bar>\<rfloor> - 1 else - int (ceillog2 (nat \<lceil>1 / \<bar>x\<bar>\<rceil>)))"

definition roundEven :: "real \<Rightarrow> int" where
  "roundEven x =
     (let f = \<lfloor>x\<rfloor>
      in if x - of_int f < 1 / 2 then f
         else if x - of_int f > 1 / 2 then f + 1
         else if even f then f else f + 1)"

definition fl :: "real \<Rightarrow> real" where
  "fl x = (if x = 0 then 0
           else let ulp = 2 powi (expo x - 52) in of_int (roundEven (x / ulp)) * ulp)"

text \<open>A reference is falsy when it is \<^verbatim>\<open>null\<close> or the number zero.\<close>

fun truthy :: "real option \<Rightarrow> bool" where
  "truthy None = False"
| "truthy (Some x) = (x \<noteq> 0)"

fun truthyId :: "nat option \<Rightarrow> bool" where
  "truthyId None = False"
| "truthyId (Some i) = (i \<noteq> 0)"

subsection \<open>Component state\<close>

datatype variant = Basic | Trial

datatype control = Increase | Decrease

text \<open>The closures handed to the host's timers. The time-tracking closure carries the
  values of \<^verbatim>\<open>isTrialExpired\<close>, \<^verbatim>\<open>hasUpgraded\<close> and \<^verbatim>\<open>isSlowingDown\<close> it captured.\<close>

datatype callback =
    StepTick control
  | FirstAcceleration variant control
  | SecondAcceleration variant control
  | TimeTracking bool bool bool
  | TapTimeout

record timer =
  tid :: nat
  due :: real
  period :: "real option"
  callback :: callback

record metronome =
  bpm :: real
  isPlaying :: bool
  dotPosition :: real
  scaleEffect :: real
  hasReached75Percent :: bool
  displayBpm :: real
  isSlowingDown :: bool
  showUpgradeMessage :: bool
  sessionCount :: nat
  isTrialExpired :: bool
  hasUpgraded :: bool
  tapTimes :: "real list"
  showTapButton :: bool
  tapTimeoutRef :: "nat option"
  audioContextRef :: bool
  animationRef :: "nat option"
  startTimeRef :: "real option"
  lastBeatTimeRef :: "real option"
  currentBpmRef :: real
  runningTimeRef :: real
  timeTrackingIntervalRef :: "nat option"
  originalBpmRef :: real
  hasDecrementedThisCycleRef :: bool
  increaseIntervalRef :: "nat option"
  decreaseIntervalRef :: "nat option"
  increaseTimeoutsRef :: "nat list"
  decreaseTimeoutsRef :: "nat list"
  increaseTouchActiveRef :: bool
  decreaseTouchActiveRef :: bool
  lastIncreaseTimeRef :: real
  lastDecreaseTimeRef :: real
  timers :: "timer list"
  nextTimerId :: nat
  nextFrameId :: nat
  tonesStarted :: nat

definition MIN_BPM :: real where "MIN_BPM = 30"
definition MAX_BPM :: real where "MAX_BPM = 240"
definition BPM_STEP :: real where "BPM_STEP = 1"
definition DEBOUNCE_TIME :: real where "DEBOUNCE_TIME = 100"
definition EXPIRED_TRIAL_RUN_TIME_SECONDS :: real where "EXPIRED_TRIAL_RUN_TIME_SECONDS = 10"
definition MAX_TRIAL_SESSION_COUNT :: nat where "MAX_TRIAL_SESSION_COUNT = 2"

text \<open>The state of a freshly constructed component: the arguments of \<^verbatim>\<open>useState\<close> and
  \<^verbatim>\<open>useRef\<close>. The audio context is an argument: its construction may fail.\<close>

definition initial :: "bool \<Rightarrow> metronome" where
  "initial audio = \<lparr>
     bpm = 70, isPlaying = False, dotPosition = 0, scaleEffect = 1,
     hasReached75Percent = False, displayBpm = 70, isSlowingDown = False,
     showUpgradeMessage = False, sessionCount = 0, isTrialExpired = False, hasUpgraded = False,
     tapTimes = [], showTapButton = False, tapTimeoutRef = None,
     audioContextRef = audio, animationRef = None, startTimeRef = None,
     lastBeatTimeRef = None, currentBpmRef = 70, runningTimeRef = 0,
     timeTrackingIntervalRef = None, originalBpmRef = 70,
     hasDecrementedThisCycleRef = False, increaseIntervalRef = None,
     decreaseIntervalRef = None, increaseTimeoutsRef = [], decreaseTimeoutsRef = [],
     increaseTouchActiveRef = False, decreaseTouchActiveRef = False,
     lastIncreaseTimeRef = 0, lastDecreaseTimeRef = 0,
     timers = [], nextTimerId = 1, nextFrameId = 1, tonesStarted = 0 \<rparr>"

subsection \<open>Audio and animation frames\<close>

text \<open>\<^verbatim>\<open>playClickTone\<close> and \<^verbatim>\<open>playTapTone\<close> return at once without an audio context and
  start one 220 Hz tone otherwise.\<close>

definition playClickTone :: "metronome \<Rightarrow> metronome" where
  "playClickTone s =
     (if \<not> audioContextRef s then s else s\<lparr>tonesStarted := tonesStarted s + 1\<rparr>)"

definition playTapTone :: "metronome \<Rightarrow> metronome" where
  "playTapTone s =
     (if \<not> audioContextRef s then s else s\<lparr>tonesStarted := tonesStarted s + 1\<rparr>)"

definition requestAnimationFrame :: "metronome \<Rightarrow> metronome" where
  "requestAnimationFrame s =
     s\<lparr>animationRef := Some (nextFrameId s), nextFrameId := nextFrameId s + 1\<rparr>"

definition stopAnimation :: "metronome \<Rightarrow> metronome" where
  "stopAnimation s =
     (if truthyId (animationRef s) then s\<lparr>animationRef := None\<rparr> else s)
       \<lparr>dotPosition := 0\<rparr>"

text \<open>\<^verbatim>\<open>startAnimation\<close> cancels a pending frame and requests a new one, whose handle
  replaces the old one.\<close>

definition startAnimation :: "metronome \<Rightarrow> metronome" where
  "startAnimation s = requestAnimationFrame s"

definition resetTiming :: "real \<Rightarrow> metronome \<Rightarrow> metronome" where
  "resetTiming now s =
     s\<lparr>startTimeRef := Some now, lastBeatTimeRef := Some now, dotPosition := 0\<rparr>"

subsection \<open>The beat engine\<close>

text \<open>One run of the \<^verbatim>\<open>animate\<close> frame callback at \<open>timestamp\<close>. An anchor that is
  \<^verbatim>\<open>null\<close> or zero is replaced by the timestamp (\<open>orElse\<close>). A tempo of zero makes
  \<^verbatim>\<open>60000 / currentBpm\<close> infinite: no beat is due and the position is zero. The callback
  tests the \<^verbatim>\<open>isPlaying\<close> its closure captured when the animation was started; frames
  are requested only while playing, so the model reads the flag of the state.\<close>

fun orElse :: "real option \<Rightarrow> real \<Rightarrow> real" where
  "orElse None d = d"
| "orElse (Some x) d = (if x = 0 then d else x)"

definition animate :: "real \<Rightarrow> metronome \<Rightarrow> metronome" where
  "animate timestamp s =
     (if \<not> isPlaying s then stopAnimation s
      else
        let s1 = s\<lparr>startTimeRef := Some (orElse (startTimeRef s) timestamp)\<rparr>;
            lastBeat = orElse (lastBeatTimeRef s1) timestamp;
            s2 = s1\<lparr>lastBeatTimeRef := Some lastBeat\<rparr>;
            currentBpm = currentBpmRef s2
        in if currentBpm = 0
           then requestAnimationFrame (s2\<lparr>dotPosition := 0\<rparr>)
           else
             let beatDuration = fl (60000 / currentBpm);
                 elapsedSinceLastBeat = fl (timestamp - lastBeat);
                 s3 = (if elapsedSinceLastBeat \<ge> beatDuration
                       then
                         let beatsSinceLastBeat =
                               Math_floor (fl (elapsedSinceLastBeat / beatDuration))
                         in (playClickTone s2)
                              \<lparr>lastBeatTimeRef :=
                                 Some (fl (lastBeat + fl (beatsSinceLastBeat * beatDuration)))\<rparr>
                       else s2);
                 beatProgress = fl (js_rem elapsedSinceLastBeat beatDuration / beatDuration);
                 newPosition = fl (beatProgress * 360)
             in requestAnimationFrame (s3\<lparr>dotPosition := newPosition\<rparr>))"


subsection \<open>Host timers\<close>

text \<open>A timer handle is a positive number. \<^verbatim>\<open>clearInterval\<close> and \<^verbatim>\<open>clearTimeout\<close> are
  the same operation on the host's table.\<close>

definition setInterval :: "callback \<Rightarrow> real \<Rightarrow> real \<Rightarrow> metronome \<Rightarrow> metronome" where
  "setInterval cb ms now s =
     s\<lparr>timers := timers s @ [\<lparr>tid = nextTimerId s, due = now + ms, period = Some ms, callback = cb\<rparr>],
       nextTimerId := nextTimerId s + 1\<rparr>"

definition setTimeout :: "callback \<Rightarrow> real \<Rightarrow> real \<Rightarrow> metronome \<Rightarrow> metronome" where
  "setTimeout cb ms now s =
     s\<lparr>timers := timers s @ [\<lparr>tid = nextTimerId s, due = now + ms, period = None, callback = cb\<rparr>],
       nextTimerId := nextTimerId s + 1\<rparr>"

definition clearTimer :: "nat \<Rightarrow> metronome \<Rightarrow> metronome" where
  "clearTimer i s = s\<lparr>timers := filter (\<lambda>t. tid t \<noteq> i) (timers s)\<rparr>"

text \<open>\<^verbatim>\<open>if (ref.current) clearInterval(ref.current)\<close>.\<close>

fun clearRef :: "nat option \<Rightarrow> metronome \<Rightarrow> metronome" where
  "clearRef None s = s"
| "clearRef (Some i) s = (if i = 0 then s else clearTimer i s)"

text \<open>\<^verbatim>\<open>ref.current.forEach((timeout) => { if (timeout) clearTimeout(timeout) })\<close>.\<close>

definition clearTimeouts :: "nat list \<Rightarrow> metronome \<Rightarrow> metronome" where
  "clearTimeouts ids s = fold (\<lambda>i s'. if i = 0 then s' else clearTimer i s') ids s"

definition cleanupAllIntervals :: "variant \<Rightarrow> metronome \<Rightarrow> metronome" where
  "cleanupAllIntervals v s =
     (let s1 = (if truthyId (increaseIntervalRef s)
                then (clearRef (increaseIntervalRef s) s)\<lparr>increaseIntervalRef := None\<rparr> else s);
          s2 = (clearTimeouts (increaseTimeoutsRef s1) s1)\<lparr>increaseTimeoutsRef := []\<rparr>;
          s3 = (if truthyId (decreaseIntervalRef s2)
                then (clearRef (decreaseIntervalRef s2) s2)\<lparr>decreaseIntervalRef := None\<rparr> else s2);
          s4 = (clearTimeouts (decreaseTimeoutsRef s3) s3)\<lparr>decreaseTimeoutsRef := []\<rparr>;
          s5 = (case v of
                  Basic \<Rightarrow> s4
                | Trial \<Rightarrow>
                    (if truthyId (timeTrackingIntervalRef s4)
                     then (clearRef (timeTrackingIntervalRef s4) s4)\<lparr>timeTrackingIntervalRef := None\<rparr>
                     else s4));
          s6 = s5\<lparr>increaseTouchActiveRef := False, decreaseTouchActiveRef := False\<rparr>
      in case v of
           Basic \<Rightarrow> s6
         | Trial \<Rightarrow>
             (if truthyId (tapTimeoutRef s6)
              then (clearRef (tapTimeoutRef s6) s6)\<lparr>tapTimeoutRef := None\<rparr> else s6))"

subsection \<open>Tap tempo (trial component)\<close>

text \<open>The three constants of \<^verbatim>\<open>handleTap\<close>: the differences of consecutive timestamps, their
  mean as \<^verbatim>\<open>reduce\<close> adds it up from the left, and the rounded tempo.\<close>

definition intervals :: "real list \<Rightarrow> real list" where
  "intervals newTimes = map (\<lambda>i. fl (newTimes ! i - newTimes ! (i - 1))) [1..<length newTimes]"

definition avgInterval :: "real list \<Rightarrow> real" where
  "avgInterval ivs = fl (foldl (\<lambda>sum interval. fl (sum + interval)) 0 ivs / real (length ivs))"

definition calculatedBpm :: "real \<Rightarrow> real" where
  "calculatedBpm avg = Math_round (fl (60000 / avg))"

text \<open>\<^verbatim>\<open>handleTap\<close>. A zero average interval makes \<^verbatim>\<open>60000 / avgInterval\<close> infinite, which
  is outside every range.\<close>

definition handleTap :: "real \<Rightarrow> metronome \<Rightarrow> metronome" where
  "handleTap now s =
     (let s1 = playTapTone s;
          s2 = clearRef (tapTimeoutRef s1) s1;
          appended = tapTimes s2 @ [now];
          newTimes = (if length appended > 8 then tl appended else appended);
          s3 = (if length newTimes \<ge> 2
                then
                  let avg = avgInterval (intervals newTimes)
                  in if avg = 0 then s2
                     else
                       if calculatedBpm avg \<ge> MIN_BPM \<and> calculatedBpm avg \<le> MAX_BPM
                          \<and> \<not> isSlowingDown s2
                       then s2\<lparr>bpm := calculatedBpm avg\<rparr> else s2
                else s2);
          s4 = s3\<lparr>tapTimes := newTimes\<rparr>
      in (setTimeout TapTimeout 2000 now s4)\<lparr>tapTimeoutRef := Some (nextTimerId s4)\<rparr>)"

definition startTapMode :: "metronome \<Rightarrow> metronome" where
  "startTapMode s = s\<lparr>showTapButton := True, tapTimes := [], isPlaying := False\<rparr>"

subsection \<open>Effects\<close>

text \<open>The session effect reads the stored session count and the stored upgrade flag.\<close>

definition sessionEffect :: "nat \<Rightarrow> bool \<Rightarrow> metronome \<Rightarrow> metronome" where
  "sessionEffect currentSessionCount userHasUpgraded s =
     (let newSessionCount = currentSessionCount + 1;
          s1 = s\<lparr>sessionCount := newSessionCount, hasUpgraded := userHasUpgraded\<rparr>
      in if newSessionCount > MAX_TRIAL_SESSION_COUNT \<and> \<not> userHasUpgraded
         then s1\<lparr>isTrialExpired := True\<rparr> else s1)"

definition syncCurrentBpmRef :: "metronome \<Rightarrow> metronome" where
  "syncCurrentBpmRef s = s\<lparr>currentBpmRef := bpm s\<rparr>"

definition syncDisplayBpm :: "metronome \<Rightarrow> metronome" where
  "syncDisplayBpm s = (if \<not> isSlowingDown s then s\<lparr>displayBpm := bpm s\<rparr> else s)"

text \<open>The effect on \<^verbatim>\<open>isPlaying\<close>: start or stop.\<close>

definition playEffect :: "variant \<Rightarrow> real \<Rightarrow> metronome \<Rightarrow> metronome" where
  "playEffect v now s =
     (if isPlaying s
      then
        let s1 = (startAnimation (resetTiming now s))\<lparr>hasReached75Percent := False\<rparr>
        in case v of
             Basic \<Rightarrow> s1
           | Trial \<Rightarrow>
               let s2 = s1\<lparr>isSlowingDown := False, runningTimeRef := 0, originalBpmRef := bpm s,
                          hasDecrementedThisCycleRef := False\<rparr>
               in (setInterval (TimeTracking (isTrialExpired s) (hasUpgraded s) (isSlowingDown s))
                     1000 now s2)
                    \<lparr>timeTrackingIntervalRef := Some (nextTimerId s2)\<rparr>
      else
        let s1 = stopAnimation s
        in case v of
             Basic \<Rightarrow> s1
           | Trial \<Rightarrow>
               let s2 = (if truthyId (timeTrackingIntervalRef s1)
                         then (clearRef (timeTrackingIntervalRef s1) s1)\<lparr>timeTrackingIntervalRef := None\<rparr>
                         else s1);
                   s3 = s2\<lparr>runningTimeRef := 0\<rparr>
               in if isSlowingDown s3
                  then
                    (if isTrialExpired s3 \<and> \<not> hasUpgraded s3
                     then s3\<lparr>showUpgradeMessage := True\<rparr> else s3)
                      \<lparr>displayBpm := originalBpmRef s3, isSlowingDown := False,
                       bpm := originalBpmRef s3\<rparr>
                  else s3\<lparr>showUpgradeMessage := False, displayBpm := bpm s3\<rparr>)"

text \<open>The body of the once-per-second time tracking interval, with its captured values.\<close>

definition timeTracking :: "bool \<Rightarrow> bool \<Rightarrow> bool \<Rightarrow> metronome \<Rightarrow> metronome" where
  "timeTracking trialExpired upgraded slowingDown s =
     (let s1 = s\<lparr>runningTimeRef := runningTimeRef s + 1\<rparr>;
          timeoutSeconds = (if trialExpired \<and> \<not> upgraded then EXPIRED_TRIAL_RUN_TIME_SECONDS
                            else 999999)
      in if runningTimeRef s1 \<ge> timeoutSeconds \<and> \<not> slowingDown
         then
           let s2 = s1\<lparr>isSlowingDown := True\<rparr>
           in if truthyId (timeTrackingIntervalRef s2)
              then (clearRef (timeTrackingIntervalRef s2) s2)\<lparr>timeTrackingIntervalRef := None\<rparr>
              else s2
         else s1)"

text \<open>The slowdown effect on \<^verbatim>\<open>dotPosition\<close> (trial component).\<close>

definition slowdownEffect :: "real \<Rightarrow> metronome \<Rightarrow> metronome" where
  "slowdownEffect now s =
     (if isSlowingDown s \<and> isPlaying s \<and> \<not> hasUpgraded s
      then
        let isAtTop = dotPosition s \<le> 5 \<or> dotPosition s \<ge> 355
        in if isAtTop \<and> \<not> hasDecrementedThisCycleRef s
           then
             let newBpm = bpm s - 5
             in if newBpm \<le> MIN_BPM
                then s\<lparr>isPlaying := False\<rparr>
                else
                  let s1 = s\<lparr>bpm := newBpm, displayBpm := newBpm,
                             hasDecrementedThisCycleRef := True\<rparr>;
                      currentBeatProgress = dotPosition s / 360;
                      newBeatDuration = 60000 / newBpm;
                      newElapsedTime = currentBeatProgress * newBeatDuration;
                      s2 = s1\<lparr>startTimeRef := Some (now - newElapsedTime)\<rparr>
                  in if dotPosition s \<le> 5 \<or> dotPosition s \<ge> 355
                     then s2\<lparr>lastBeatTimeRef := Some (now - newElapsedTime)\<rparr> else s2
           else if dotPosition s > 90 \<and> dotPosition s < 270
                then (if hasDecrementedThisCycleRef s
                      then s\<lparr>hasDecrementedThisCycleRef := False\<rparr> else s)
                else s
      else s)"

text \<open>The effect on \<^verbatim>\<open>bpm\<close>: the plain component restarts the timing, the trial component
  returns without doing anything.\<close>

definition bpmEffect :: "variant \<Rightarrow> real \<Rightarrow> metronome \<Rightarrow> metronome" where
  "bpmEffect v now s =
     (case v of
        Basic \<Rightarrow>
          (if isPlaying s
           then (startAnimation (stopAnimation (resetTiming now s)))\<lparr>hasReached75Percent := False\<rparr>
           else s)
      | Trial \<Rightarrow> s)"

definition handle75Percent :: "metronome \<Rightarrow> metronome" where
  "handle75Percent s =
     (if isPlaying s \<and> dotPosition s \<ge> 270 \<and> \<not> hasReached75Percent s
      then s\<lparr>hasReached75Percent := True\<rparr> else s)"

definition zoomEffect :: "metronome \<Rightarrow> metronome" where
  "zoomEffect s =
     (if isPlaying s \<and> hasReached75Percent s
      then
        let isInZoomRange = dotPosition s \<ge> 270 \<or> dotPosition s \<le> 90
        in if isInZoomRange
           then
             let distanceFromTop = (if dotPosition s \<ge> 270 then 360 - dotPosition s
                                    else dotPosition s);
                 maxZoomDistance = 90;
                 zoomFactor = 0.7 + 0.2 * (1 - distanceFromTop / maxZoomDistance)
             in s\<lparr>scaleEffect := zoomFactor\<rparr>
           else s\<lparr>scaleEffect := 0.7\<rparr>
      else s\<lparr>scaleEffect := 0.7\<rparr>)"


text \<open>The effects that have \<^verbatim>\<open>bpm\<close> among their dependencies, run after a tempo change.\<close>

definition bpmChanged :: "variant \<Rightarrow> real \<Rightarrow> metronome \<Rightarrow> metronome" where
  "bpmChanged v now s =
     (case v of
        Basic \<Rightarrow> bpmEffect Basic now (syncCurrentBpmRef s)
      | Trial \<Rightarrow> bpmEffect Trial now (slowdownEffect now (syncDisplayBpm (syncCurrentBpmRef s))))"

subsection \<open>Tempo controls\<close>

definition togglePlay :: "variant \<Rightarrow> metronome \<Rightarrow> metronome" where
  "togglePlay v s =
     (case v of
        Basic \<Rightarrow> s\<lparr>isPlaying := \<not> isPlaying s\<rparr>
      | Trial \<Rightarrow>
          let s1 = (if bpm s \<le> 0 then s\<lparr>bpm := 70, displayBpm := 70\<rparr> else s);
              s2 = (if \<not> isPlaying s then s1\<lparr>showUpgradeMessage := False\<rparr> else s1)
          in s2\<lparr>isPlaying := \<not> isPlaying s\<rparr>)"

definition increaseTempo :: "variant \<Rightarrow> metronome \<Rightarrow> metronome" where
  "increaseTempo v s =
     (if bpm s < MAX_BPM \<and> (v = Trial \<longrightarrow> \<not> isSlowingDown s)
      then s\<lparr>bpm := bpm s + BPM_STEP\<rparr> else s)"

definition decreaseTempo :: "variant \<Rightarrow> metronome \<Rightarrow> metronome" where
  "decreaseTempo v s =
     (if bpm s > MIN_BPM \<and> (v = Trial \<longrightarrow> \<not> isSlowingDown s)
      then s\<lparr>bpm := bpm s - BPM_STEP\<rparr> else s)"

definition debouncedIncrease :: "variant \<Rightarrow> real \<Rightarrow> metronome \<Rightarrow> metronome" where
  "debouncedIncrease v now s =
     (if now - lastIncreaseTimeRef s < DEBOUNCE_TIME then s
      else increaseTempo v (s\<lparr>lastIncreaseTimeRef := now\<rparr>))"

definition debouncedDecrease :: "variant \<Rightarrow> real \<Rightarrow> metronome \<Rightarrow> metronome" where
  "debouncedDecrease v now s =
     (if now - lastDecreaseTimeRef s < DEBOUNCE_TIME then s
      else decreaseTempo v (s\<lparr>lastDecreaseTimeRef := now\<rparr>))"

definition handleUpgrade :: "metronome \<Rightarrow> metronome" where
  "handleUpgrade s = s\<lparr>hasUpgraded := True, showUpgradeMessage := False\<rparr>"

definition handleFiveMinuteSessions :: "metronome \<Rightarrow> metronome" where
  "handleFiveMinuteSessions s = s\<lparr>showUpgradeMessage := False\<rparr>"

subsection \<open>Press and hold\<close>

text \<open>
  The four start handlers and the four release handlers of a component are the same code
  up to the control they serve: the references of the increase control or those of the
  decrease control, and the direction of the step. They are written once, with the
  control as a parameter. The one place where a handler leaves this pattern is the
  innermost timeout of the two decrease handlers of the trial component, which stores
  the handle of its 200 ms interval in \<^verbatim>\<open>increaseIntervalRef\<close> (\<open>fastestRef\<close>).
\<close>

fun intervalRef :: "control \<Rightarrow> metronome \<Rightarrow> nat option" where
  "intervalRef Increase s = increaseIntervalRef s"
| "intervalRef Decrease s = decreaseIntervalRef s"

fun setIntervalRef :: "control \<Rightarrow> nat option \<Rightarrow> metronome \<Rightarrow> metronome" where
  "setIntervalRef Increase r s = s\<lparr>increaseIntervalRef := r\<rparr>"
| "setIntervalRef Decrease r s = s\<lparr>decreaseIntervalRef := r\<rparr>"

fun timeoutsRef :: "control \<Rightarrow> metronome \<Rightarrow> nat list" where
  "timeoutsRef Increase s = increaseTimeoutsRef s"
| "timeoutsRef Decrease s = decreaseTimeoutsRef s"

fun setTimeoutsRef :: "control \<Rightarrow> nat list \<Rightarrow> metronome \<Rightarrow> metronome" where
  "setTimeoutsRef Increase r s = s\<lparr>increaseTimeoutsRef := r\<rparr>"
| "setTimeoutsRef Decrease r s = s\<lparr>decreaseTimeoutsRef := r\<rparr>"

fun touchActiveRef :: "control \<Rightarrow> metronome \<Rightarrow> bool" where
  "touchActiveRef Increase s = increaseTouchActiveRef s"
| "touchActiveRef Decrease s = decreaseTouchActiveRef s"

fun setTouchActiveRef :: "control \<Rightarrow> bool \<Rightarrow> metronome \<Rightarrow> metronome" where
  "setTouchActiveRef Increase b s = s\<lparr>increaseTouchActiveRef := b\<rparr>"
| "setTouchActiveRef Decrease b s = s\<lparr>decreaseTouchActiveRef := b\<rparr>"

fun debounced :: "variant \<Rightarrow> control \<Rightarrow> real \<Rightarrow> metronome \<Rightarrow> metronome" where
  "debounced v Increase now s = debouncedIncrease v now s"
| "debounced v Decrease now s = debouncedDecrease v now s"

fun fastestRef :: "variant \<Rightarrow> control \<Rightarrow> control" where
  "fastestRef Trial Decrease = Increase"
| "fastestRef v c = c"

text \<open>The updater of the repeating steps:
  \<^verbatim>\<open>prev < MAX_BPM ? prev + BPM_STEP : prev\<close> and \<^verbatim>\<open>prev > MIN_BPM ? prev - BPM_STEP : prev\<close>.\<close>

fun stepBpm :: "control \<Rightarrow> real \<Rightarrow> real" where
  "stepBpm Increase prev = (if prev < MAX_BPM then prev + BPM_STEP else prev)"
| "stepBpm Decrease prev = (if prev > MIN_BPM then prev - BPM_STEP else prev)"

definition holdStart :: "variant \<Rightarrow> control \<Rightarrow> real \<Rightarrow> metronome \<Rightarrow> metronome" where
  "holdStart v c now s =
     (let s1 = cleanupAllIntervals v s;
          s2 = debounced v c now s1;
          s3 = setIntervalRef c (Some (nextTimerId s2)) (setInterval (StepTick c) 500 now s2);
          firstAcceleration = nextTimerId s3;
          s4 = setTimeout (FirstAcceleration v c) 3000 now s3
      in setTimeoutsRef c (timeoutsRef c s4 @ [firstAcceleration]) s4)"

definition holdEnd :: "control \<Rightarrow> metronome \<Rightarrow> metronome" where
  "holdEnd c s =
     (let s1 = (if truthyId (intervalRef c s)
                then setIntervalRef c None (clearRef (intervalRef c s) s) else s)
      in setTimeoutsRef c [] (clearTimeouts (timeoutsRef c s1) s1))"

definition handleTouchStart :: "variant \<Rightarrow> control \<Rightarrow> real \<Rightarrow> metronome \<Rightarrow> metronome" where
  "handleTouchStart v c now s =
     (if touchActiveRef c s then s else holdStart v c now (setTouchActiveRef c True s))"

definition handleTouchEnd :: "control \<Rightarrow> metronome \<Rightarrow> metronome" where
  "handleTouchEnd c s = holdEnd c (setTouchActiveRef c False s)"

definition handleMouseDown :: "variant \<Rightarrow> control \<Rightarrow> real \<Rightarrow> metronome \<Rightarrow> metronome" where
  "handleMouseDown v c now s = (if touchActiveRef c s then s else holdStart v c now s)"

definition handleMouseUp :: "control \<Rightarrow> metronome \<Rightarrow> metronome" where
  "handleMouseUp c s = (if touchActiveRef c s then s else holdEnd c s)"

abbreviation "handleIncreaseTouchStart v \<equiv> handleTouchStart v Increase"
abbreviation "handleIncreaseTouchEnd \<equiv> handleTouchEnd Increase"
abbreviation "handleIncreaseMouseDown v \<equiv> handleMouseDown v Increase"
abbreviation "handleIncreaseMouseUp \<equiv> handleMouseUp Increase"
abbreviation "handleDecreaseTouchStart v \<equiv> handleTouchStart v Decrease"
abbreviation "handleDecreaseTouchEnd \<equiv> handleTouchEnd Decrease"
abbreviation "handleDecreaseMouseDown v \<equiv> handleMouseDown v Decrease"
abbreviation "handleDecreaseMouseUp \<equiv> handleMouseUp Decrease"

text \<open>The bodies of the closures handed to the host, run at time \<open>now\<close>.\<close>

fun runCallback :: "callback \<Rightarrow> real \<Rightarrow> metronome \<Rightarrow> metronome" where
  "runCallback (StepTick c) now s = s\<lparr>bpm := stepBpm c (bpm s)\<rparr>"
| "runCallback (FirstAcceleration v c) now s =
     (if truthyId (intervalRef c s)
      then
        let s1 = clearRef (intervalRef c s) s;
            s2 = s1\<lparr>bpm := stepBpm c (bpm s1)\<rparr>;
            s3 = setIntervalRef c (Some (nextTimerId s2)) (setInterval (StepTick c) 300 now s2);
            secondAcceleration = nextTimerId s3;
            s4 = setTimeout (SecondAcceleration v c) 2000 now s3
        in setTimeoutsRef c (timeoutsRef c s4 @ [secondAcceleration]) s4
      else s)"
| "runCallback (SecondAcceleration v c) now s =
     (if truthyId (intervalRef c s)
      then
        let s1 = clearRef (intervalRef c s) s;
            s2 = s1\<lparr>bpm := stepBpm c (bpm s1)\<rparr>
        in setIntervalRef (fastestRef v c) (Some (nextTimerId s2))
             (setInterval (StepTick c) 200 now s2)
      else s)"
| "runCallback (TimeTracking trialExpired upgraded slowingDown) now s =
     timeTracking trialExpired upgraded slowingDown s"
| "runCallback TapTimeout now s = s\<lparr>tapTimes := [], showTapButton := False\<rparr>"

subsection \<open>An ideal host scheduler\<close>

text \<open>
  The host fires a timer exactly when it is due: an interval is re-armed one period
  later, a timeout leaves the table, then the closure runs. Among the timers due at the
  same instant the host's order is a parameter: the one created first, or the one
  created last. \<open>runTimers\<close> fires everything due up to \<open>until\<close> and returns the final
  state with the trace of the firings; it gives \<open>None\<close> when its fuel runs out first.
\<close>

datatype tiebreak = OldestFirst | NewestFirst

fun pickOldest :: "timer \<Rightarrow> timer list \<Rightarrow> timer" where
  "pickOldest b [] = b"
| "pickOldest b (t # ts) = pickOldest (if due t < due b then t else b) ts"

fun pickNewest :: "timer \<Rightarrow> timer list \<Rightarrow> timer" where
  "pickNewest b [] = b"
| "pickNewest b (t # ts) = pickNewest (if due t \<le> due b then t else b) ts"

definition nextTimer :: "tiebreak \<Rightarrow> real \<Rightarrow> metronome \<Rightarrow> timer option" where
  "nextTimer tb until s =
     (case filter (\<lambda>t. due t \<le> until) (timers s) of
        [] \<Rightarrow> None
      | t # ts \<Rightarrow> Some (case tb of OldestFirst \<Rightarrow> pickOldest t ts | NewestFirst \<Rightarrow> pickNewest t ts))"

definition fire :: "timer \<Rightarrow> metronome \<Rightarrow> metronome" where
  "fire t s =
     (let s1 = (case period t of
                  Some ms \<Rightarrow>
                    s\<lparr>timers := map (\<lambda>u. if tid u = tid t then u\<lparr>due := due u + ms\<rparr> else u) (timers s)\<rparr>
                | None \<Rightarrow> clearTimer (tid t) s)
      in runCallback (callback t) (due t) s1)"

fun runTimers :: "tiebreak \<Rightarrow> nat \<Rightarrow> real \<Rightarrow> metronome \<Rightarrow> (metronome \<times> (real \<times> callback) list) option" where
  "runTimers tb 0 until s =
     (case nextTimer tb until s of None \<Rightarrow> Some (s, []) | Some t \<Rightarrow> None)"
| "runTimers tb (Suc fuel) until s =
     (case nextTimer tb until s of
        None \<Rightarrow> Some (s, [])
      | Some t \<Rightarrow>
          (case runTimers tb fuel until (fire t s) of
             None \<Rightarrow> None
           | Some (s', trace) \<Rightarrow> Some (s', (due t, callback t) # trace)))"

subsection \<open>The component as a transition system\<close>

text \<open>
  Every handler, effect body and pending timer may run at any moment and with any
  argument. The events of the trial component that the plain component does not have
  leave the plain component as it is.
\<close>

datatype event =
    SessionEffect nat bool
  | SyncCurrentBpmRef
  | SyncDisplayBpm
  | PlayEffect real
  | SlowdownEffect real
  | BpmEffect real
  | Handle75Percent
  | ZoomEffect
  | Animate real
  | TogglePlay
  | IncreaseTempo
  | DecreaseTempo
  | TouchStart control real
  | TouchEnd control
  | MouseDown control real
  | MouseUp control
  | Tap real
  | StartTapMode
  | Upgrade
  | FiveMinuteSessions
  | TimerFires nat

fun trialOnly :: "event \<Rightarrow> bool" where
  "trialOnly (SessionEffect n u) = True"
| "trialOnly SyncDisplayBpm = True"
| "trialOnly (SlowdownEffect now) = True"
| "trialOnly (Tap now) = True"
| "trialOnly StartTapMode = True"
| "trialOnly Upgrade = True"
| "trialOnly FiveMinuteSessions = True"
| "trialOnly e = False"

fun handle :: "variant \<Rightarrow> event \<Rightarrow> metronome \<Rightarrow> metronome" where
  "handle v (SessionEffect n u) s = sessionEffect n u s"
| "handle v SyncCurrentBpmRef s = syncCurrentBpmRef s"
| "handle v SyncDisplayBpm s = syncDisplayBpm s"
| "handle v (PlayEffect now) s = playEffect v now s"
| "handle v (SlowdownEffect now) s = slowdownEffect now s"
| "handle v (BpmEffect now) s = bpmEffect v now s"
| "handle v Handle75Percent s = handle75Percent s"
| "handle v ZoomEffect s = zoomEffect s"
| "handle v (Animate timestamp) s = animate timestamp s"
| "handle v TogglePlay s = togglePlay v s"
| "handle v IncreaseTempo s = increaseTempo v s"
| "handle v DecreaseTempo s = decreaseTempo v s"
| "handle v (TouchStart c now) s = handleTouchStart v c now s"
| "handle v (TouchEnd c) s = handleTouchEnd c s"
| "handle v (MouseDown c now) s = handleMouseDown v c now s"
| "handle v (MouseUp c) s = handleMouseUp c s"
| "handle v (Tap now) s = handleTap now s"
| "handle v StartTapMode s = startTapMode s"
| "handle v Upgrade s = handleUpgrade s"
| "handle v FiveMinuteSessions s = handleFiveMinuteSessions s"
| "handle v (TimerFires i) s =
     (case find (\<lambda>t. tid t = i) (timers s) of None \<Rightarrow> s | Some t \<Rightarrow> fire t s)"

definition step :: "variant \<Rightarrow> event \<Rightarrow> metronome \<Rightarrow> metronome" where
  "step v e s = (if v = Basic \<and> trialOnly e then s else handle v e s)"

definition run :: "variant \<Rightarrow> event list \<Rightarrow> metronome \<Rightarrow> metronome" where
  "run v es s = fold (step v) es s"

text \<open>The slowdown effect run over a sequence of samples \<open>(now, position)\<close>: each sample
  sets \<^verbatim>\<open>dotPosition\<close> and runs the effect.\<close>

definition slowdownSample :: "real \<times> real \<Rightarrow> metronome \<Rightarrow> metronome" where
  "slowdownSample smp s = slowdownEffect (fst smp) (s\<lparr>dotPosition := snd smp\<rparr>)"

definition slowdownSamples :: "(real \<times> real) list \<Rightarrow> metronome \<Rightarrow> metronome" where
  "slowdownSamples smps s = fold slowdownSample smps s"



text \<open>The estimate in the specification's words: 60000 over the mean of the consecutive
  differences of the window, rounded.\<close>

definition spec_meanInterval :: "real list \<Rightarrow> real" where
  "spec_meanInterval w = (\<Sum>i = 1..<length w. w ! i - w ! (i - 1)) / real (length w - 1)"

definition spec_estimatedBpm :: "real list \<Rightarrow> real" where
  "spec_estimatedBpm w = Math_round (60000 / spec_meanInterval w)"

text \<open>The tempo bounds of the data model: an integer between \<open>MIN_BPM\<close> and \<open>MAX_BPM\<close>.
  The invariant asks it of the tempo and of the two references that copy the tempo.\<close>

definition tempoInRange :: "real \<Rightarrow> bool" where
  "tempoInRange b = (of_int \<lfloor>b\<rfloor> = b \<and> MIN_BPM \<le> b \<and> b \<le> MAX_BPM)"

definition tempoInvariant :: "metronome \<Rightarrow> bool" where
  "tempoInvariant s =
     (tempoInRange (bpm s) \<and> tempoInRange (originalBpmRef s) \<and> tempoInRange (currentBpmRef s))"

text \<open>The time of the last debounced step of a control.\<close>

fun lastTimeRef :: "control \<Rightarrow> metronome \<Rightarrow> real" where
  "lastTimeRef Increase s = lastIncreaseTimeRef s"
| "lastTimeRef Decrease s = lastDecreaseTimeRef s"

section \<open>Properties\<close>

subsection \<open>Binary64 rounding\<close>

lemma expo_bounds:
  assumes "x \<noteq> 0"
  shows "2 powi expo x \<le> \<bar>x\<bar> \<and> \<bar>x\<bar> < 2 powi (expo x + 1)"
proof (cases "\<bar>x\<bar> \<ge> 1")
  case True
  define n where "n = \<lfloor>\<bar>x\<bar>\<rfloor>"
  have n: "0 < n" using True by (simp add: n_def)
  have e: "expo x = bitlen n - 1" using True by (simp add: expo_def n_def)
  have b: "1 \<le> bitlen n" using n bitlen_bounds[OF n] bitlen_nonneg[of n]
    by (cases "bitlen n = 0") auto
  from bitlen_bounds[OF n] have lo: "2 ^ nat (bitlen n - 1) \<le> n" and hi: "n < 2 ^ nat (bitlen n)"
    by blast+
  have "real_of_int (2 ^ nat (bitlen n - 1)) \<le> real_of_int n" using lo by linarith
  also have "\<dots> \<le> \<bar>x\<bar>" by (simp add: n_def)
  finally have 1: "2 powi expo x \<le> \<bar>x\<bar>"
    using b by (simp add: e power_int_def)
  have "n + 1 \<le> 2 ^ nat (bitlen n)" using hi by simp
  then have "real_of_int (n + 1) \<le> real_of_int (2 ^ nat (bitlen n))" by linarith
  moreover have "\<bar>x\<bar> < real_of_int (n + 1)" unfolding n_def by linarith
  ultimately have 2: "\<bar>x\<bar> < 2 powi (expo x + 1)"
    using b by (simp add: e power_int_def)
  from 1 2 show ?thesis by blast
next
  case False
  define a where "a = \<bar>x\<bar>"
  have a: "0 < a" "a < 1" using False assms by (simp_all add: a_def)
  define N where "N = nat \<lceil>1 / a\<rceil>"
  define c where "c = ceillog2 N"
  have y: "1 < 1 / a" using a by simp
  then have N2: "2 \<le> N" unfolding N_def by linarith
  have e: "expo x = - int c" using False by (simp add: expo_def a_def N_def c_def)
  have le: "N \<le> 2 ^ c" unfolding c_def by (rule le_two_power_ceillog2)
  have "c \<le> ceillog2 N" by (simp add: c_def)
  then have lt: "2 ^ c < 2 * N" using N2 by (subst (asm) ceillog2_ge_iff) simp_all
  have c1: "1 \<le> c"
  proof (rule ccontr)
    assume "\<not> 1 \<le> c" then have "c = 0" by simp
    with le N2 show False by simp
  qed
  have "1 / a \<le> real N" unfolding N_def using y by linarith
  also have "\<dots> \<le> 2 ^ c" using le by (metis of_nat_le_iff of_nat_numeral of_nat_power)
  finally have "1 / a \<le> 2 ^ c" .
  then have "1 \<le> 2 ^ c * a" using a by (simp add: pos_divide_le_eq)
  then have 1: "2 powi expo x \<le> \<bar>x\<bar>"
    unfolding e a_def[symmetric]
    by (simp add: power_int_minus field_simps)
  obtain d where d: "c = Suc d" using c1 by (cases c) auto
  have "2 ^ d < N" using lt by (simp add: d)
  then have "int (2 ^ d) < \<lceil>1 / a\<rceil>" unfolding N_def by linarith
  then have "real (2 ^ d) < 1 / a" by (simp add: less_ceiling_iff)
  then have "a < 1 / 2 ^ d" using a by (simp add: field_simps)
  moreover have "expo x + 1 = - int d" by (simp add: e d)
  ultimately have 2: "\<bar>x\<bar> < 2 powi (expo x + 1)"
    unfolding a_def[symmetric]
    by (simp add: power_int_minus field_simps)
  from 1 2 show ?thesis by blast
qed


lemma powi2_less_imp: "(2::real) powi a < 2 powi b \<Longrightarrow> a < b"
  using power_int_increasing[of b a "2::real"] by (cases "a < b") auto

lemma expo_eqI:
  assumes "2 powi e \<le> \<bar>x\<bar>" and "\<bar>x\<bar> < 2 powi (e + 1)"
  shows "expo x = e"
proof -
  have "x \<noteq> 0"
  proof
    assume "x = 0"
    with assms(1) have "(2::real) powi e \<le> 0" by simp
    moreover have "(0::real) < 2 powi e" by simp
    ultimately show False by linarith
  qed
  from expo_bounds[OF this] have b: "2 powi expo x \<le> \<bar>x\<bar>" "\<bar>x\<bar> < 2 powi (expo x + 1)"
    by blast+
  have "(2::real) powi e < 2 powi (expo x + 1)" using assms(1) b(2) by linarith
  then have "e < expo x + 1" by (rule powi2_less_imp)
  moreover have "(2::real) powi expo x < 2 powi (e + 1)" using assms(2) b(1) by linarith
  then have "expo x < e + 1" by (rule powi2_less_imp)
  ultimately show ?thesis by linarith
qed


lemma roundEven_error: "\<bar>of_int (roundEven m) - m\<bar> \<le> 1 / 2"
  unfolding roundEven_def Let_def by (auto simp: abs_if) linarith+

lemma roundEven_of_int [simp]: "roundEven (of_int k) = k"
  by (simp add: roundEven_def)

lemma roundEven_ge: "of_int k \<le> m \<Longrightarrow> k \<le> roundEven m"
  unfolding roundEven_def Let_def by (auto simp: le_floor_iff) linarith+

lemma roundEven_le: "m \<le> of_int k \<Longrightarrow> roundEven m \<le> k"
proof -
  assume a: "m \<le> of_int k"
  have f: "\<lfloor>m\<rfloor> \<le> k" using a by (simp add: floor_le_iff)
  show ?thesis
  proof (cases "of_int \<lfloor>m\<rfloor> = m")
    case True
    then have "roundEven m = \<lfloor>m\<rfloor>" by (metis roundEven_of_int)
    with f show ?thesis by simp
  next
    case False
    then have "of_int \<lfloor>m\<rfloor> < m" by linarith
    with a have "\<lfloor>m\<rfloor> < k" by linarith
    moreover have "roundEven m \<le> \<lfloor>m\<rfloor> + 1" by (simp add: roundEven_def Let_def)
    ultimately show ?thesis by linarith
  qed
qed

lemma roundEven_mono: "m \<le> m' \<Longrightarrow> roundEven m \<le> roundEven m'"
proof -
  assume a: "m \<le> m'"
  have fm: "\<lfloor>m\<rfloor> \<le> \<lfloor>m'\<rfloor>" using a by (rule floor_mono)
  show ?thesis
  proof (cases "\<lfloor>m\<rfloor> = \<lfloor>m'\<rfloor>")
    case True
    with a show ?thesis unfolding roundEven_def Let_def by auto
  next
    case False
    with fm have "\<lfloor>m\<rfloor> + 1 \<le> \<lfloor>m'\<rfloor>" by linarith
    moreover have "roundEven m \<le> \<lfloor>m\<rfloor> + 1" by (simp add: roundEven_def Let_def)
    moreover have "\<lfloor>m'\<rfloor> \<le> roundEven m'" by (simp add: roundEven_def Let_def)
    ultimately show ?thesis by linarith
  qed
qed


lemma fl_zero [simp]: "fl 0 = 0"
  by (simp add: fl_def)

lemma fl_at:
  assumes "2 powi e \<le> \<bar>x\<bar>" and "\<bar>x\<bar> < 2 powi (e + 1)"
  shows "fl x = of_int (roundEven (x / 2 powi (e - 52))) * 2 powi (e - 52)"
proof -
  have "x \<noteq> 0"
  proof
    assume "x = 0"
    with assms(1) have "(2::real) powi e \<le> 0" by simp
    moreover have "(0::real) < 2 powi e" by simp
    ultimately show False by linarith
  qed
  then show ?thesis by (simp add: fl_def Let_def expo_eqI[OF assms])
qed

lemma powi2_split: "(2::real) powi e = 2 powi (e - 52) * 2 ^ 52"
proof -
  have "e = (e - 52) + 52" by simp
  then have "(2::real) powi e = 2 powi ((e - 52) + 52)" by (rule arg_cong)
  also have "\<dots> = 2 powi (e - 52) * 2 powi 52" by (subst power_int_add) simp_all
  finally show ?thesis by simp
qed

lemma powi2_split1: "(2::real) powi (e + 1) = 2 powi (e - 52) * 2 ^ 53"
proof -
  have "e + 1 = (e - 52) + 53" by simp
  then have "(2::real) powi (e + 1) = 2 powi ((e - 52) + 53)" by (rule arg_cong)
  also have "\<dots> = 2 powi (e - 52) * 2 powi 53" by (subst power_int_add) simp_all
  finally show ?thesis by simp
qed

text \<open>The scaled significand of a positive number lies between \<open>2^52\<close> and \<open>2^53\<close>.\<close>

lemma significand_bounds:
  assumes "0 < x"
  shows "2 ^ 52 \<le> x / 2 powi (expo x - 52)" and "x / 2 powi (expo x - 52) < 2 ^ 53"
proof -
  have u: "(0::real) < 2 powi (expo x - 52)" by simp
  from expo_bounds[of x] assms
  have "2 powi expo x \<le> x" and "x < 2 powi (expo x + 1)" by simp_all
  then have "2 powi (expo x - 52) * 2 ^ 52 \<le> x" and "x < 2 powi (expo x - 52) * 2 ^ 53"
    using powi2_split[of "expo x"] powi2_split1[of "expo x"] by simp_all
  then show "2 ^ 52 \<le> x / 2 powi (expo x - 52)" and "x / 2 powi (expo x - 52) < 2 ^ 53"
    using u by (simp_all add: pos_le_divide_eq pos_divide_less_eq mult.commute)
qed

lemma fl_bounds:
  assumes "0 < x"
  shows "2 powi expo x \<le> fl x" and "fl x \<le> 2 powi (expo x + 1)"
proof -
  define u :: real where "u = 2 powi (expo x - 52)"
  have u: "0 < u" by (simp add: u_def)
  have f: "fl x = of_int (roundEven (x / u)) * u" using assms by (simp add: fl_def Let_def u_def)
  from significand_bounds[OF assms]
  have lo: "of_int (2 ^ 52) \<le> x / u" and hi: "x / u \<le> of_int (2 ^ 53)" by (simp_all add: u_def)
  have "2 ^ 52 \<le> roundEven (x / u)" and "roundEven (x / u) \<le> 2 ^ 53"
    using roundEven_ge[OF lo] roundEven_le[OF hi] by blast+
  then have "(2::real) ^ 52 \<le> of_int (roundEven (x / u))" and "of_int (roundEven (x / u)) \<le> (2::real) ^ 53"
    by (metis of_int_le_iff of_int_numeral of_int_power)+
  then have "2 ^ 52 * u \<le> fl x" and "fl x \<le> 2 ^ 53 * u"
    using u by (simp_all add: f)
  then show "2 powi expo x \<le> fl x" and "fl x \<le> 2 powi (expo x + 1)"
    using powi2_split[of "expo x"] powi2_split1[of "expo x"] by (simp_all add: u_def mult.commute)
qed

lemma fl_pos: "0 < x \<Longrightarrow> 0 < fl x"
proof -
  assume "0 < x"
  from fl_bounds(1)[OF this] have "2 powi expo x \<le> fl x" .
  moreover have "(0::real) < 2 powi expo x" by simp
  ultimately show ?thesis by linarith
qed

lemma fl_nonneg: "0 \<le> x \<Longrightarrow> 0 \<le> fl x"
  using fl_pos[of x] by (cases "x = 0") auto

lemma expo_mono:
  assumes "0 < x" and "x \<le> y"
  shows "expo x \<le> expo y"
proof -
  from expo_bounds[of x] expo_bounds[of y] assms
  have "2 powi expo x \<le> x" and "y < 2 powi (expo y + 1)" by simp_all
  with assms(2) have "(2::real) powi expo x < 2 powi (expo y + 1)" by linarith
  then have "expo x < expo y + 1" by (rule powi2_less_imp)
  then show ?thesis by simp
qed

lemma fl_mono_pos:
  assumes "0 < x" and "x \<le> y"
  shows "fl x \<le> fl y"
proof (cases "expo x = expo y")
  case True
  define u :: real where "u = 2 powi (expo x - 52)"
  have u: "0 < u" by (simp add: u_def)
  have "x / u \<le> y / u" using assms(2) u by (simp add: divide_right_mono)
  then have "roundEven (x / u) \<le> roundEven (y / u)" by (rule roundEven_mono)
  then have "real_of_int (roundEven (x / u)) * u \<le> real_of_int (roundEven (y / u)) * u"
    using u by simp
  then show ?thesis using assms True by (simp add: fl_def Let_def u_def)
next
  case False
  with expo_mono[OF assms] have "expo x + 1 \<le> expo y" by simp
  then have "(2::real) powi (expo x + 1) \<le> 2 powi expo y"
    by (intro power_int_increasing) simp_all
  moreover have "fl x \<le> 2 powi (expo x + 1)" using fl_bounds(2)[OF assms(1)] .
  moreover have "2 powi expo y \<le> fl y" using fl_bounds(1)[of y] assms by simp
  ultimately show ?thesis by linarith
qed

lemma fl_mono: "0 \<le> x \<Longrightarrow> x \<le> y \<Longrightarrow> fl x \<le> fl y"
  using fl_mono_pos[of x y] fl_nonneg[of y] by (cases "x = 0") auto


text \<open>A number on the grid of its own binade is not changed by the rounding.\<close>

lemma fl_exact:
  assumes "2 powi e \<le> \<bar>x\<bar>" and "\<bar>x\<bar> < 2 powi (e + 1)"
    and "x = of_int k * 2 powi (e - 52)"
  shows "fl x = x"
proof -
  have "x / 2 powi (e - 52) = of_int k" by (simp add: assms(3))
  then show ?thesis by (simp add: fl_at[OF assms(1,2)] assms(3)[symmetric])
qed

lemma fl_idem_pos:
  assumes "0 < x"
  shows "fl (fl x) = fl x"
proof -
  define e where "e = expo x"
  define u :: real where "u = 2 powi (e - 52)"
  define n where "n = roundEven (x / u)"
  have u: "0 < u" by (simp add: u_def)
  have f: "fl x = of_int n * u" using assms by (simp add: fl_def Let_def u_def n_def e_def)
  have lo: "2 powi e \<le> fl x" and hi: "fl x \<le> 2 powi (e + 1)"
    using fl_bounds[OF assms] by (simp_all add: e_def)
  have p: "0 < fl x" using fl_pos[OF assms] .
  show ?thesis
  proof (cases "fl x = 2 powi (e + 1)")
    case True
    have "(2::real) powi (e + 1) < 2 powi (e + 1 + 1)"
      by (intro power_int_strict_increasing) simp_all
    moreover have "(2::real) powi (e + 1) = of_int (2 ^ 52) * 2 powi (e + 1 - 52)"
      using powi2_split[of "e + 1"] by (simp add: mult.commute)
    ultimately show ?thesis
      using fl_exact[of "e + 1" "fl x" "2 ^ 52"] p unfolding True by simp
  next
    case False
    with hi have "fl x < 2 powi (e + 1)" by linarith
    with lo p show ?thesis
      using fl_exact[of e "fl x" n] by (simp add: f u_def)
  qed
qed

lemma fl_idem: "0 \<le> x \<Longrightarrow> fl (fl x) = fl x"
  using fl_idem_pos[of x] by (cases "x = 0") auto

lemma fl_of_int:
  assumes "\<bar>k\<bar> < 2 ^ 53"
  shows "fl (of_int k) = of_int k"
proof (cases "k = 0")
  case True
  then show ?thesis by simp
next
  case False
  define e where "e = expo (of_int k)"
  from expo_bounds[of "of_int k"] False
  have lo: "2 powi e \<le> \<bar>real_of_int k\<bar>" and hi: "\<bar>real_of_int k\<bar> < 2 powi (e + 1)"
    by (simp_all add: e_def)
  have "\<bar>real_of_int k\<bar> < 2 ^ 53"
    using assms by (metis of_int_abs of_int_less_iff of_int_numeral of_int_power)
  with lo have "(2::real) powi e < 2 powi 53" by simp
  then have e: "e < 53" by (rule powi2_less_imp)
  have "(2::real) powi (e - 52) * 2 ^ nat (52 - e) = 2 powi (e - 52) * 2 powi (52 - e)"
    using e by (simp add: power_int_def)
  also have "\<dots> = 2 powi ((e - 52) + (52 - e))" by (subst power_int_add) simp_all
  finally have "(2::real) powi (e - 52) * 2 ^ nat (52 - e) = 1" by simp
  then have "real_of_int k = of_int (k * 2 ^ nat (52 - e)) * 2 powi (e - 52)"
    by (simp add: mult.assoc mult.commute)
  from fl_exact[OF lo hi this] show ?thesis .
qed

text \<open>The relative error of one rounding is at most \<open>2^-53\<close>.\<close>

lemma fl_error:
  assumes "0 \<le> x"
  shows "\<bar>fl x - x\<bar> \<le> x / 2 ^ 53"
proof (cases "x = 0")
  case True
  then show ?thesis by simp
next
  case False
  with assms have x: "0 < x" by simp
  define u :: real where "u = 2 powi (expo x - 52)"
  have u: "0 < u" by (simp add: u_def)
  have f: "fl x = of_int (roundEven (x / u)) * u" using x by (simp add: fl_def Let_def u_def)
  have "fl x - x = (of_int (roundEven (x / u)) - x / u) * u"
    using u by (simp add: f left_diff_distrib)
  then have "\<bar>fl x - x\<bar> = \<bar>of_int (roundEven (x / u)) - x / u\<bar> * u"
    using u by (simp add: abs_mult)
  also have "\<dots> \<le> 1 / 2 * u"
    using roundEven_error[of "x / u"] u by (intro mult_right_mono) simp_all
  also have "\<dots> \<le> x / 2 ^ 53"
  proof -
    from significand_bounds(1)[OF x] have "2 ^ 52 * u \<le> x"
      using u by (simp add: u_def pos_le_divide_eq)
    then show ?thesis by simp
  qed
  finally show ?thesis .
qed


text \<open>Evaluation at a given binade, for numbers of magnitude at least one and below one.\<close>

lemma fl_eval_hi:
  fixes a :: nat
  assumes "2 ^ a \<le> \<bar>x\<bar>" and "\<bar>x\<bar> < 2 ^ (a + 1)" and "a \<le> 52"
  shows "fl x = of_int (roundEven (x * 2 ^ (52 - a))) / 2 ^ (52 - a)"
proof -
  have 1: "2 powi int a \<le> \<bar>x\<bar>" using assms(1) by simp
  have "int a + 1 = int (a + 1)" by simp
  then have "(2::real) powi (int a + 1) = 2 powi int (a + 1)" by (simp only:)
  also have "\<dots> = 2 ^ (a + 1)" by (rule power_int_of_nat)
  finally have 2: "\<bar>x\<bar> < 2 powi (int a + 1)" using assms(2) by simp
  have "int a - 52 = - int (52 - a)" using assms(3) by simp
  then have "(2::real) powi (int a - 52) = 2 powi (- int (52 - a))" by (simp only:)
  also have "\<dots> = 1 / 2 ^ (52 - a)"
    by (simp only: power_int_minus_divide power_int_of_nat)
  finally have e: "(2::real) powi (int a - 52) = 1 / 2 ^ (52 - a)" .
  show ?thesis unfolding fl_at[OF 1 2] e by simp
qed




text \<open>Scaling by a power of two commutes with the rounding (the exponent range is not
  bounded).\<close>

lemma expo_scale:
  assumes "x \<noteq> 0"
  shows "expo (x * 2 powi j) = expo x + j"
proof (rule expo_eqI)
  from expo_bounds[OF assms]
  have lo: "2 powi expo x \<le> \<bar>x\<bar>" and hi: "\<bar>x\<bar> < 2 powi (expo x + 1)" by blast+
  have a: "\<bar>x * 2 powi j\<bar> = \<bar>x\<bar> * 2 powi j" by (simp add: abs_mult)
  have "(2::real) powi (expo x + j) = 2 powi expo x * 2 powi j"
    by (subst power_int_add) simp_all
  then show "2 powi (expo x + j) \<le> \<bar>x * 2 powi j\<bar>"
    unfolding a using lo by simp
  have "expo x + j + 1 = (expo x + 1) + j" by simp
  then have "(2::real) powi (expo x + j + 1) = 2 powi ((expo x + 1) + j)" by (simp only:)
  also have "\<dots> = 2 powi (expo x + 1) * 2 powi j" by (subst power_int_add) simp_all
  finally show "\<bar>x * 2 powi j\<bar> < 2 powi (expo x + j + 1)"
    unfolding a using hi by simp
qed

lemma fl_scale: "fl (x * 2 powi j) = fl x * 2 powi j"
proof (cases "x = 0")
  case True
  then show ?thesis by simp
next
  case False
  have nz: "x * 2 powi j \<noteq> 0" using False by simp
  have "expo x + j - 52 = (expo x - 52) + j" by simp
  then have "(2::real) powi (expo x + j - 52) = 2 powi ((expo x - 52) + j)" by (simp only:)
  also have "\<dots> = 2 powi (expo x - 52) * 2 powi j" by (subst power_int_add) simp_all
  finally have u: "(2::real) powi (expo x + j - 52) = 2 powi (expo x - 52) * 2 powi j" .
  have "fl (x * 2 powi j)
        = of_int (roundEven (x * 2 powi j / (2 powi (expo x - 52) * 2 powi j)))
            * (2 powi (expo x - 52) * 2 powi j)"
    using nz by (simp add: fl_def Let_def expo_scale[OF False] u del: mult_eq_0_iff)
  also have "x * 2 powi j / (2 powi (expo x - 52) * 2 powi j) = x / 2 powi (expo x - 52)"
    by simp
  finally show ?thesis using False by (simp add: fl_def Let_def mult.assoc)
qed


lemma fl_double: "fl (2 * x) = 2 * fl x"
  using fl_scale[of x 1] by (simp add: mult.commute)




text \<open>One rounding as a relative error.\<close>

lemma fl_rel:
  assumes "0 \<le> x"
  shows "x * (1 - 1 / 2 ^ 53) \<le> fl x" and "fl x \<le> x * (1 + 1 / 2 ^ 53)"
proof -
  from fl_error[OF assms] have "fl x - x \<le> x / 2 ^ 53" and "x - fl x \<le> x / 2 ^ 53"
    by linarith+
  then show "x * (1 - 1 / 2 ^ 53) \<le> fl x" and "fl x \<le> x * (1 + 1 / 2 ^ 53)"
    by (simp_all add: right_diff_distrib distrib_left)
qed

lemma fl_numeral [simp]: "numeral k < (2::int) ^ 53 \<Longrightarrow> fl (numeral k) = numeral k"
  using fl_of_int[of "numeral k"] by simp

lemma fl_one [simp]: "fl 1 = 1"
  using fl_of_int[of 1] by simp

text \<open>Whole numbers below \<open>2^53\<close> and their differences are doubles.\<close>

lemma fl_int_diff:
  assumes "x \<in> \<int>" and "0 \<le> x" and "x < 2 ^ 53" and "y \<in> \<int>" and "0 \<le> y" and "y < 2 ^ 53"
  shows "fl (x - y) = x - y"
proof -
  from assms(1,4) obtain a b where x: "x = of_int a" and y: "y = of_int b"
    by (auto elim!: Ints_cases)
  have "real_of_int a < real_of_int (2 ^ 53)" "real_of_int b < real_of_int (2 ^ 53)"
    using assms(3,6) by (simp_all add: x y)
  then have "a < 2 ^ 53" "b < 2 ^ 53" by (simp_all only: of_int_less_iff)
  moreover have "0 \<le> a" "0 \<le> b" using assms(2,5) by (simp_all add: x y)
  ultimately have "\<bar>a - b\<bar> < 2 ^ 53" by simp
  from fl_of_int[OF this] show ?thesis by (simp add: x y)
qed


subsection \<open>Drift correction\<close>

lemma fl_nonpos: "x \<le> 0 \<Longrightarrow> fl x \<le> 0"
proof (cases "x = 0")
  case True
  then show ?thesis by simp
next
  case False
  assume "x \<le> 0"
  define u :: real where "u = 2 powi (expo x - 52)"
  have u: "0 < u" by (simp add: u_def)
  have "x / u \<le> of_int 0" using \<open>x \<le> 0\<close> u by (simp add: divide_le_0_iff)
  then have "roundEven (x / u) \<le> 0" by (rule roundEven_le)
  then have "real_of_int (roundEven (x / u)) * u \<le> 0"
    using u by (simp add: mult_le_0_iff)
  then show ?thesis using False by (simp add: fl_def Let_def u_def)
qed

lemma fl_pos_imp: "0 < fl x \<Longrightarrow> 0 < x"
  using fl_nonpos[of x] by (cases "0 < x") auto

text \<open>The quotient of the two rounded operands, rounded: three roundings, each with a
  relative error of at most \<open>2^-53\<close>, stay within \<open>2^-51\<close> of the exact quotient.\<close>

lemma quotient_rounding:
  assumes "0 < B" and "0 \<le> E"
  shows "E / B * (1 - 1 / 2 ^ 51) \<le> fl (fl E / fl B)"
    and "fl (fl E / fl B) \<le> E / B * (1 + 1 / 2 ^ 51)"
proof -
  define e where "e = fl E"
  define b where "b = fl B"
  define d :: real where "d = 1 / 2 ^ 53"
  have d: "0 < d" "d < 1" by (simp_all add: d_def)
  have b0: "0 < b" unfolding b_def by (rule fl_pos[OF assms(1)])
  have e0: "0 \<le> e" unfolding e_def by (rule fl_nonneg[OF assms(2)])
  have Q0: "0 \<le> E / B" using assms by simp
  from fl_rel[OF assms(2)] have e: "E * (1 - d) \<le> e" "e \<le> E * (1 + d)"
    by (simp_all add: e_def d_def)
  from fl_rel[of B] assms(1) have b: "B * (1 - d) \<le> b" "b \<le> B * (1 + d)"
    by (simp_all add: b_def d_def)
  have q0: "0 \<le> e / b" using e0 b0 by simp
  from fl_rel[OF q0] have q: "e / b * (1 - d) \<le> fl (e / b)" "fl (e / b) \<le> e / b * (1 + d)"
    by (simp_all add: d_def)
  have lo1: "0 < B * (1 - d)" using assms(1) d by simp
  have "e / b \<le> (E * (1 + d)) / (B * (1 - d))"
    by (rule frac_le) (use e0 e b lo1 in simp_all)
  also have "\<dots> = E / B * ((1 + d) / (1 - d))" by simp
  finally have up: "e / b \<le> E / B * ((1 + d) / (1 - d))" .
  have "E * (1 - d) / (B * (1 + d)) \<le> e / b"
    by (rule frac_le) (use e0 e b b0 in simp_all)
  then have dn: "E / B * ((1 - d) / (1 + d)) \<le> e / b" by simp
  have c1: "(1 + d) / (1 - d) * (1 + d) \<le> 1 + 1 / 2 ^ 51" by (simp add: d_def)
  have c2: "1 - 1 / 2 ^ 51 \<le> (1 - d) / (1 + d) * (1 - d)" by (simp add: d_def)
  have "fl (e / b) \<le> e / b * (1 + d)" by (rule q(2))
  also have "\<dots> \<le> E / B * ((1 + d) / (1 - d)) * (1 + d)"
    using up d by (intro mult_right_mono) simp_all
  also have "\<dots> = E / B * ((1 + d) / (1 - d) * (1 + d))" by simp
  also have "\<dots> \<le> E / B * (1 + 1 / 2 ^ 51)"
    using Q0 c1 by (rule mult_left_mono[rotated])
  finally show "fl (fl E / fl B) \<le> E / B * (1 + 1 / 2 ^ 51)" unfolding e_def b_def .
  have "E / B * (1 - 1 / 2 ^ 51) \<le> E / B * ((1 - d) / (1 + d) * (1 - d))"
    using Q0 c2 by (rule mult_left_mono[rotated])
  also have "\<dots> = E / B * ((1 - d) / (1 + d)) * (1 - d)" by simp
  also have "\<dots> \<le> e / b * (1 - d)"
    using dn d by (intro mult_right_mono) simp_all
  also have "\<dots> \<le> fl (e / b)" by (rule q(1))
  finally show "E / B * (1 - 1 / 2 ^ 51) \<le> fl (fl E / fl B)" unfolding e_def b_def .
qed

lemma animate_playing:
  assumes "isPlaying s" and "lastBeatTimeRef s = Some l" and "l \<noteq> 0" and "currentBpmRef s \<noteq> 0"
  shows "animate t s =
     (let bd = fl (60000 / currentBpmRef s);
          e = fl (t - l);
          s2 = s\<lparr>startTimeRef := Some (orElse (startTimeRef s) t), lastBeatTimeRef := Some l\<rparr>;
          s3 = (if e \<ge> bd
                then (playClickTone s2)
                       \<lparr>lastBeatTimeRef := Some (fl (l + fl (Math_floor (fl (e / bd)) * bd)))\<rparr>
                else s2)
      in requestAnimationFrame (s3\<lparr>dotPosition := fl (fl (js_rem e bd / bd) * 360)\<rparr>))"
  using assms by (simp add: animate_def Let_def)

lemma animate_beat:
  assumes "isPlaying s" and "lastBeatTimeRef s = Some l" and "l \<noteq> 0" and "currentBpmRef s \<noteq> 0"
    and "fl (t - l) \<ge> fl (60000 / currentBpmRef s)"
  shows "tonesStarted (animate t s) = tonesStarted s + (if audioContextRef s then 1 else 0)"
    and "lastBeatTimeRef (animate t s)
         = Some (fl (l + fl (of_int \<lfloor>fl (fl (t - l) / fl (60000 / currentBpmRef s))\<rfloor>
                              * fl (60000 / currentBpmRef s))))"
  using assms(5)
  by (simp_all add: animate_playing[OF assms(1-4)] Let_def requestAnimationFrame_def
      playClickTone_def Math_floor_def)


text \<open>
  Claim C1. A frame at least one beat duration after the anchor starts exactly one click
  tone (none without an audio context), however many whole beats have passed, and moves
  \<^verbatim>\<open>lastBeatTimeRef\<close> forward by \<open>floor (elapsed / beatDuration) * beatDuration\<close>, every
  operation in double precision. The whole-beat count is at least one, and it is the floor
  of the exact quotient \<open>(t - l) / (60000 / bpm)\<close> up to a relative rounding error of
  \<open>2^-51\<close> in the quotient. A frame between 2.25 and 2.75 beat durations late, so one that
  is 2.5 late, moves the anchor by two beat durations.
\<close>

theorem animate_drift_correction:
  assumes "isPlaying s" and "lastBeatTimeRef s = Some l" and "l \<noteq> 0"
    and "currentBpmRef s = bpm s" and "0 < bpm s"
    and "fl (t - l) \<ge> fl (60000 / bpm s)"
  shows "tonesStarted (animate t s) = tonesStarted s + (if audioContextRef s then 1 else 0)
     \<and> lastBeatTimeRef (animate t s)
         = Some (fl (l + fl (of_int \<lfloor>fl (fl (t - l) / fl (60000 / bpm s))\<rfloor>
                              * fl (60000 / bpm s))))
     \<and> 1 \<le> \<lfloor>fl (fl (t - l) / fl (60000 / bpm s))\<rfloor>
     \<and> \<lfloor>(t - l) / (60000 / bpm s) * (1 - 1 / 2 ^ 51)\<rfloor>
           \<le> \<lfloor>fl (fl (t - l) / fl (60000 / bpm s))\<rfloor>
     \<and> \<lfloor>fl (fl (t - l) / fl (60000 / bpm s))\<rfloor>
           \<le> \<lfloor>(t - l) / (60000 / bpm s) * (1 + 1 / 2 ^ 51)\<rfloor>
     \<and> (9 / 4 * (60000 / bpm s) \<le> t - l \<and> t - l \<le> 11 / 4 * (60000 / bpm s)
          \<longrightarrow> lastBeatTimeRef (animate t s) = Some (fl (l + 2 * fl (60000 / bpm s))))"
proof -
  define B where "B = 60000 / bpm s"
  define bd where "bd = fl B"
  define e where "e = fl (t - l)"
  define n where "n = \<lfloor>fl (e / bd)\<rfloor>"
  have B: "0 < B" using assms(5) by (simp add: B_def)
  have bd: "0 < bd" unfolding bd_def by (rule fl_pos[OF B])
  have ge: "bd \<le> e" using assms(6) by (simp add: e_def bd_def B_def)
  then have "0 < fl (t - l)" using bd by (simp add: e_def)
  then have E: "0 \<le> t - l" using fl_pos_imp[of "t - l"] by simp
  have cur: "currentBpmRef s \<noteq> 0" using assms(4,5) by simp
  have ge': "fl (60000 / currentBpmRef s) \<le> fl (t - l)" using assms(4,6) by simp
  from animate_beat[OF assms(1-3) cur ge']
  have tones: "tonesStarted (animate t s) = tonesStarted s + (if audioContextRef s then 1 else 0)"
    and anchor: "lastBeatTimeRef (animate t s) = Some (fl (l + fl (of_int n * bd)))"
    by (simp_all add: assms(4) n_def e_def bd_def B_def)
  have "1 \<le> e / bd" using ge bd by simp
  then have "fl 1 \<le> fl (e / bd)" by (intro fl_mono) simp_all
  then have one: "1 \<le> n" by (simp add: n_def le_floor_iff)
  from quotient_rounding[OF B E]
  have lo: "(t - l) / B * (1 - 1 / 2 ^ 51) \<le> fl (e / bd)"
    and hi: "fl (e / bd) \<le> (t - l) / B * (1 + 1 / 2 ^ 51)"
    by (simp_all only: e_def bd_def)
  have nlo: "\<lfloor>(t - l) / B * (1 - 1 / 2 ^ 51)\<rfloor> \<le> n" unfolding n_def by (rule floor_mono[OF lo])
  have nhi: "n \<le> \<lfloor>(t - l) / B * (1 + 1 / 2 ^ 51)\<rfloor>" unfolding n_def by (rule floor_mono[OF hi])
  have two: "lastBeatTimeRef (animate t s) = Some (fl (l + 2 * bd))"
    if band: "9 / 4 * B \<le> t - l \<and> t - l \<le> 11 / 4 * B"
  proof -
    from band B have Q: "9 / 4 \<le> (t - l) / B" "(t - l) / B \<le> 11 / 4"
      by (simp_all add: pos_le_divide_eq pos_divide_le_eq)
    have "(2::real) \<le> 9 / 4 * (1 - 1 / 2 ^ 51)" by simp
    also have "\<dots> \<le> (t - l) / B * (1 - 1 / 2 ^ 51)"
      using Q(1) by (intro mult_right_mono) simp_all
    finally have "2 \<le> \<lfloor>(t - l) / B * (1 - 1 / 2 ^ 51)\<rfloor>" by (simp add: le_floor_iff)
    with nlo have n2: "2 \<le> n" by linarith
    have "(t - l) / B * (1 + 1 / 2 ^ 51) \<le> 11 / 4 * (1 + 1 / 2 ^ 51)"
      using Q(2) by (intro mult_right_mono) simp_all
    also have "\<dots> < (3::real)" by simp
    finally have "\<lfloor>(t - l) / B * (1 + 1 / 2 ^ 51)\<rfloor> < 3" by (simp add: floor_less_iff)
    with nhi have "n < 3" by linarith
    with n2 have n: "n = 2" by linarith
    have "fl bd = bd" unfolding bd_def using B by (intro fl_idem) simp
    then have "fl (2 * bd) = 2 * bd" by (simp add: fl_double)
    then show ?thesis unfolding anchor n by simp
  qed
  show ?thesis
    using tones anchor one nlo nhi two
    unfolding n_def e_def bd_def B_def by blast
qed

text \<open>The theorem at 168 beats per minute, anchor 1000, frame 3500, seven beat durations
  late in exact arithmetic: the double quotient is just below seven and the anchor moves
  by six; and at 120 beats per minute with a frame 2.5 beat durations late.\<close>

theorem animate_drift_correction_witness:
  "(let s = (initial True)\<lparr>isPlaying := True, lastBeatTimeRef := Some 1000, bpm := 168,
                            currentBpmRef := 168\<rparr>;
        r = (initial True)\<lparr>isPlaying := True, lastBeatTimeRef := Some 1000, bpm := 120,
                            currentBpmRef := 120\<rparr>
    in isPlaying s \<and> lastBeatTimeRef s = Some 1000 \<and> currentBpmRef s = bpm s \<and> 0 < bpm s
       \<and> fl (3500 - 1000) \<ge> fl (60000 / bpm s)
       \<and> tonesStarted s = 0
       \<and> tonesStarted (animate 3500 s) = 1
       \<and> lastBeatTimeRef (animate 3500 s) = Some (1727803986505143 / 549755813888)
       \<and> isPlaying r \<and> lastBeatTimeRef r = Some 1000 \<and> currentBpmRef r = bpm r \<and> 0 < bpm r
       \<and> fl (2250 - 1000) \<ge> fl (60000 / bpm r)
       \<and> 9 / 4 * (60000 / bpm r) \<le> 2250 - 1000 \<and> 2250 - 1000 \<le> 11 / 4 * (60000 / bpm r)
       \<and> lastBeatTimeRef (animate 2250 r) = Some 2000)"
proof -
  define s where "s = (initial True)\<lparr>isPlaying := True, lastBeatTimeRef := Some 1000, bpm := 168,
                            currentBpmRef := 168\<rparr>"
  define r where "r = (initial True)\<lparr>isPlaying := True, lastBeatTimeRef := Some 1000, bpm := 120,
                            currentBpmRef := 120\<rparr>"
  have bd: "fl (60000 / 168) = 6282923587291429 / 17592186044416"
    by (subst fl_eval_hi[of 8]) (simp_all add: roundEven_def)
  have e: "fl (3500 - 1000) = 2500" by simp
  have q: "fl (2500 / (6282923587291429 / 17592186044416)) = 7881299347898367 / 1125899906842624"
    by (subst fl_eval_hi[of 2]) (simp_all add: roundEven_def)
  have f: "real_of_int \<lfloor>(7881299347898367::real) / 1125899906842624\<rfloor> = 6" by simp
  have a: "fl (6 * (6282923587291429 / 17592186044416)) = 1178048172617143 / 549755813888"
    by (subst fl_eval_hi[of 11]) (simp_all add: roundEven_def)
  have c: "fl (1000 + 1178048172617143 / 549755813888) = 1727803986505143 / 549755813888"
    by (subst fl_eval_hi[of 11]) (simp_all add: roundEven_def)
  have hs: "isPlaying s" "lastBeatTimeRef s = Some 1000" "(1000::real) \<noteq> 0"
    "currentBpmRef s = bpm s" "0 < bpm s" "bpm s = 168" "tonesStarted s = 0" "audioContextRef s"
    by (simp_all add: s_def initial_def)
  have ges: "fl (3500 - 1000) \<ge> fl (60000 / bpm s)" unfolding hs(6) bd e by simp
  note inst_s = animate_drift_correction[OF hs(1-5) ges]
  have s1: "tonesStarted (animate 3500 s) = 1"
    using inst_s[THEN conjunct1] hs(7,8) by simp
  have s2: "lastBeatTimeRef (animate 3500 s) = Some (1727803986505143 / 549755813888)"
    using inst_s[THEN conjunct2, THEN conjunct1] unfolding hs(6) bd e q f a c .
  have hr: "isPlaying r" "lastBeatTimeRef r = Some 1000" "(1000::real) \<noteq> 0"
    "currentBpmRef r = bpm r" "0 < bpm r" "bpm r = 120"
    by (simp_all add: r_def initial_def)
  have ger: "fl (2250 - 1000) \<ge> fl (60000 / bpm r)" unfolding hr(6) by simp
  have band: "9 / 4 * (60000 / bpm r) \<le> 2250 - 1000 \<and> 2250 - 1000 \<le> 11 / 4 * (60000 / bpm r)"
    unfolding hr(6) by simp
  note inst_r = animate_drift_correction[OF hr(1-5) ger]
  have r1: "lastBeatTimeRef (animate 2250 r) = Some 2000"
    using inst_r[THEN conjunct2, THEN conjunct2, THEN conjunct2, THEN conjunct2, THEN conjunct2,
             rule_format, OF band]
    unfolding hr(6) by simp
  show ?thesis
    unfolding Let_def s_def[symmetric] r_def[symmetric]
    using hs(1,2,4,5,7) ges s1 s2 hr(1,2,4,5) ger band r1 by blast
qed

subsection \<open>The continuous phase\<close>















subsection \<open>Tap tempo\<close>

lemma clearRef_fields [simp]:
  "bpm (clearRef r s) = bpm s"
  "tapTimes (clearRef r s) = tapTimes s"
  "isSlowingDown (clearRef r s) = isSlowingDown s"
  "nextTimerId (clearRef r s) = nextTimerId s"
  by (cases r; simp add: clearTimer_def)+

lemma window_drop:
  assumes "length xs \<le> 8"
  shows "(if length (xs @ [x]) > 8 then tl (xs @ [x]) else xs @ [x])
         = drop (length xs + 1 - 8) (xs @ [x])"
proof (cases "length xs = 8")
  case True
  then have "xs \<noteq> []" by auto
  with True show ?thesis by (simp add: drop_Suc)
next
  case False
  with assms have "length xs < 8" by simp
  then show ?thesis by simp
qed

lemma handleTap_window:
  "tapTimes (handleTap now s)
     = (if length (tapTimes s @ [now]) > 8 then tl (tapTimes s @ [now]) else tapTimes s @ [now])"
  by (simp add: handleTap_def Let_def setTimeout_def playTapTone_def)

lemma handleTap_bpm:
  "bpm (handleTap now s) =
     (let w = tapTimes (handleTap now s);
          avg = avgInterval (intervals w)
      in if length w \<ge> 2 \<and> avg \<noteq> 0
            \<and> 30 \<le> calculatedBpm avg \<and> calculatedBpm avg \<le> 240 \<and> \<not> isSlowingDown s
         then calculatedBpm avg else bpm s)"
proof -
  define s2 where "s2 = clearRef (tapTimeoutRef (playTapTone s)) (playTapTone s)"
  define w where
    "w = (if length (tapTimes s2 @ [now]) > 8 then tl (tapTimes s2 @ [now]) else tapTimes s2 @ [now])"
  have eq: "handleTap now s =
     (let s3 = (if length w \<ge> 2
                then
                  let avg = avgInterval (intervals w)
                  in if avg = 0 then s2
                     else
                       if calculatedBpm avg \<ge> MIN_BPM \<and> calculatedBpm avg \<le> MAX_BPM
                          \<and> \<not> isSlowingDown s2
                       then s2\<lparr>bpm := calculatedBpm avg\<rparr> else s2
                else s2);
          s4 = s3\<lparr>tapTimes := w\<rparr>
      in (setTimeout TapTimeout 2000 now s4)\<lparr>tapTimeoutRef := Some (nextTimerId s4)\<rparr>)"
    unfolding handleTap_def w_def s2_def Let_def ..
  have s2: "bpm s2 = bpm s" "isSlowingDown s2 = isSlowingDown s" "tapTimes s2 = tapTimes s"
    by (simp_all add: s2_def playTapTone_def)
  have w: "tapTimes (handleTap now s) = w"
    by (simp add: handleTap_window w_def s2)
  show ?thesis
    unfolding w eq Let_def
    by (simp add: setTimeout_def MIN_BPM_def MAX_BPM_def s2)
qed

text \<open>Timestamps that are whole numbers below \<open>2^53\<close>, as \<^verbatim>\<open>Date.now()\<close> returns them: their
  differences and the running sums of the differences are exact, so the only roundings
  left are those of the two divisions.\<close>

lemma foldl_intervals:
  assumes w: "\<forall>x \<in> set w. x \<in> \<int> \<and> 0 \<le> x \<and> x < 2 ^ 53"
    and "1 \<le> n" and "n \<le> length w"
  shows "foldl (\<lambda>sum interval. fl (sum + interval)) 0
           (map (\<lambda>i. fl (w ! i - w ! (i - 1))) [1..<n]) = w ! (n - 1) - w ! 0"
  using assms(2,3)
proof (induction n rule: dec_induct)
  case base
  then show ?case by simp
next
  case (step n)
  from step.prems have n: "n < length w" "n - 1 < length w" "0 < length w" by linarith+
  then have IH: "foldl (\<lambda>sum interval. fl (sum + interval)) 0
           (map (\<lambda>i. fl (w ! i - w ! (i - 1))) [1..<n]) = w ! (n - 1) - w ! 0"
    using step.IH by simp
  have d: "fl (w ! i - w ! j) = w ! i - w ! j" if "i < length w" "j < length w" for i j
    using w that by (intro fl_int_diff) (simp_all add: nth_mem)
  have "foldl (\<lambda>sum interval. fl (sum + interval)) 0
           (map (\<lambda>i. fl (w ! i - w ! (i - 1))) [1..<Suc n])
        = fl ((w ! (n - 1) - w ! 0) + fl (w ! n - w ! (n - 1)))"
    using step.hyps(1) IH by simp
  also have "(w ! (n - 1) - w ! 0) + fl (w ! n - w ! (n - 1)) = w ! n - w ! 0"
    unfolding d[OF n(1,2)] by simp
  also have "fl (w ! n - w ! 0) = w ! n - w ! 0" by (rule d[OF n(1,3)])
  finally show ?case by simp
qed

lemma sum_differences:
  assumes "1 \<le> n"
  shows "(\<Sum>i = 1..<n. (w::nat \<Rightarrow> real) i - w (i - 1)) = w (n - 1) - w 0"
  using assms
proof (induction n rule: dec_induct)
  case base
  then show ?case by simp
next
  case (step n)
  then show ?case by (cases n) simp_all
qed

lemma avgInterval_integers:
  assumes "\<forall>x \<in> set w. x \<in> \<int> \<and> 0 \<le> x \<and> x < 2 ^ 53" and "2 \<le> length w"
  shows "avgInterval (intervals w) = fl (spec_meanInterval w)"
proof -
  have 1: "1 \<le> length w" using assms(2) by simp
  have "avgInterval (intervals w) = fl ((w ! (length w - 1) - w ! 0) / real (length w - 1))"
    unfolding avgInterval_def intervals_def foldl_intervals[OF assms(1) 1 order_refl]
    by simp
  also have "(w ! (length w - 1) - w ! 0) / real (length w - 1) = spec_meanInterval w"
    unfolding spec_meanInterval_def sum_differences[OF 1, of "\<lambda>i. w ! i"] ..
  finally show ?thesis .
qed

lemma estimate_rounding:
  assumes "0 < m"
  shows "60000 / m * (1 - 1 / 2 ^ 51) \<le> fl (60000 / fl m)"
    and "fl (60000 / fl m) \<le> 60000 / m * (1 + 1 / 2 ^ 51)"
  using quotient_rounding[OF assms, of 60000] by simp_all

lemma handleTap_slow: "isSlowingDown (handleTap u r) = isSlowingDown r"
  by (simp add: handleTap_def Let_def setTimeout_def playTapTone_def)

lemma handleTap_bpm_at:
  assumes "tapTimes (handleTap now s) = w" and "calculatedBpm (avgInterval (intervals w)) = c"
  shows "bpm (handleTap now s) =
     (if length w \<ge> 2 \<and> avgInterval (intervals w) \<noteq> 0 \<and> 30 \<le> c \<and> c \<le> 240
         \<and> \<not> isSlowingDown s
      then c else bpm s)"
  unfolding handleTap_bpm[of now s] Let_def assms ..

lemma intervals_two: "intervals [a, b] = [fl (b - a)]"
  by (simp add: intervals_def)

lemma intervals_four: "intervals [a, b, c, d] = [fl (b - a), fl (c - b), fl (d - c)]"
  by (simp add: intervals_def upt_rec numeral_eq_Suc)


text \<open>The estimate at four windows: an even tempo, an estimate out of range, a quotient
  that the rounding of the mean moves below the half, and an exact half.\<close>

lemma estimate_regular: "avgInterval (intervals [0, 500, 1000, 1500]) = 500"
  "calculatedBpm (avgInterval (intervals [0, 500, 1000, 1500])) = 120"
  by (simp_all add: intervals_four avgInterval_def calculatedBpm_def Math_round_def)

lemma estimate_fast: "calculatedBpm (avgInterval (intervals [t, t + 100])) = 600"
  by (simp add: intervals_two avgInterval_def calculatedBpm_def Math_round_def)

lemma estimate_uneven: "avgInterval (intervals [0, 533, 1066, 1600]) = 4691249611844267 / 8796093022208"
  "calculatedBpm (avgInterval (intervals [0, 533, 1066, 1600])) = 112"
proof -
  have a: "avgInterval (intervals [0, 533, 1066, 1600]) = fl (1600 / 3)"
    by (simp add: intervals_four avgInterval_def)
  have m: "fl (1600 / 3) = 4691249611844267 / 8796093022208"
    by (subst fl_eval_hi[of 9]) (simp_all add: roundEven_def)
  have q: "fl (60000 / (4691249611844267 / 8796093022208)) = 7916483719987199 / 70368744177664"
    by (subst fl_eval_hi[of 6]) (simp_all add: roundEven_def)
  have r: "Math_round (7916483719987199 / 70368744177664) = 112"
    by (simp add: Math_round_def)
  show "avgInterval (intervals [0, 533, 1066, 1600]) = 4691249611844267 / 8796093022208"
    unfolding a m ..
  show "calculatedBpm (avgInterval (intervals [0, 533, 1066, 1600])) = 112"
    unfolding calculatedBpm_def a m q r ..
qed

lemma estimate_half: "avgInterval (intervals [0, 960]) = 960"
  "calculatedBpm (avgInterval (intervals [0, 960])) = 63"
proof -
  show a: "avgInterval (intervals [0, 960]) = 960"
    by (simp add: intervals_two avgInterval_def)
  have q: "fl (60000 / 960) = 125 / 2"
    by (subst fl_eval_hi[of 5]) (simp_all add: roundEven_def)
  have r: "Math_round (125 / 2) = 63" by (simp add: Math_round_def)
  show "calculatedBpm (avgInterval (intervals [0, 960])) = 63"
    unfolding calculatedBpm_def a q r ..
qed

text \<open>
  Claim C3. A tap keeps the eight most recent timestamps, the oldest leaving first. With
  two or more timestamps in the window the estimate is 60000 over the mean of the
  consecutive differences, rounded to the nearest whole number with a half going up,
  every operation in double precision; it becomes the tempo exactly when it lies between
  30 and 240 and the component is not slowing down (a zero mean gives no finite
  estimate), and otherwise the tempo stays. For whole-number timestamps below \<open>2^53\<close> the
  computed mean is the exact mean of the differences rounded once, and the quotient that
  is rounded is within a relative \<open>2^-51\<close> of the exact one. Taps at 0, 500, 1000 and
  1500 ms give 120; two taps 100 ms apart leave the tempo alone; taps at 0, 533, 1066 and
  1600 ms give 112, the double quotient being just below 112.5; taps at 0 and 960 ms give
  63, the quotient being 62.5.
\<close>

theorem handleTap_estimate:
  assumes "length (tapTimes s) \<le> 8"
  shows "tapTimes (handleTap now s) = drop (length (tapTimes s) + 1 - 8) (tapTimes s @ [now])
     \<and> length (tapTimes (handleTap now s)) \<le> 8
     \<and> bpm (handleTap now s) =
          (let w = tapTimes (handleTap now s);
               estimate = of_int \<lfloor>fl (60000 / avgInterval (intervals w)) + 1 / 2\<rfloor>
           in if length w \<ge> 2 \<and> avgInterval (intervals w) \<noteq> 0
                 \<and> 30 \<le> estimate \<and> estimate \<le> 240 \<and> \<not> isSlowingDown s
              then estimate else bpm s)
     \<and> ((\<forall>x \<in> set w. x \<in> \<int> \<and> 0 \<le> x \<and> x < 2 ^ 53) \<and> 2 \<le> length w
          \<longrightarrow> avgInterval (intervals w) = fl (spec_meanInterval w))
     \<and> (0 < spec_meanInterval w
          \<longrightarrow> \<lfloor>60000 / spec_meanInterval w * (1 - 1 / 2 ^ 51) + 1 / 2\<rfloor>
                \<le> \<lfloor>fl (60000 / fl (spec_meanInterval w)) + 1 / 2\<rfloor>
              \<and> \<lfloor>fl (60000 / fl (spec_meanInterval w)) + 1 / 2\<rfloor>
                \<le> \<lfloor>60000 / spec_meanInterval w * (1 + 1 / 2 ^ 51) + 1 / 2\<rfloor>)
     \<and> (tapTimes s = [] \<and> \<not> isSlowingDown s
          \<longrightarrow> bpm (handleTap 1500 (handleTap 1000 (handleTap 500 (handleTap 0 s)))) = 120)
     \<and> (tapTimes s = [] \<longrightarrow> bpm (handleTap (t + 100) (handleTap t s)) = bpm s)
     \<and> (tapTimes s = [] \<and> \<not> isSlowingDown s
          \<longrightarrow> bpm (handleTap 1600 (handleTap 1066 (handleTap 533 (handleTap 0 s)))) = 112)
     \<and> (tapTimes s = [] \<and> \<not> isSlowingDown s
          \<longrightarrow> bpm (handleTap 960 (handleTap 0 s)) = 63)"
proof -
  have win: "tapTimes (handleTap now s) = drop (length (tapTimes s) + 1 - 8) (tapTimes s @ [now])"
    using window_drop[OF assms] by (simp add: handleTap_window)
  have len: "length (tapTimes (handleTap now s)) \<le> 8"
    using assms by (simp add: win)
  have est: "bpm (handleTap now s) =
          (let w = tapTimes (handleTap now s);
               estimate = of_int \<lfloor>fl (60000 / avgInterval (intervals w)) + 1 / 2\<rfloor>
           in if length w \<ge> 2 \<and> avgInterval (intervals w) \<noteq> 0
                 \<and> 30 \<le> estimate \<and> estimate \<le> 240 \<and> \<not> isSlowingDown s
              then estimate else bpm s)"
    unfolding handleTap_bpm[of now s] Let_def calculatedBpm_def Math_round_def ..
  have mean: "(\<forall>x \<in> set w. x \<in> \<int> \<and> 0 \<le> x \<and> x < 2 ^ 53) \<and> 2 \<le> length w
          \<longrightarrow> avgInterval (intervals w) = fl (spec_meanInterval w)"
    using avgInterval_integers[of w] by blast
  have near: "\<lfloor>60000 / spec_meanInterval w * (1 - 1 / 2 ^ 51) + 1 / 2\<rfloor>
                \<le> \<lfloor>fl (60000 / fl (spec_meanInterval w)) + 1 / 2\<rfloor>
              \<and> \<lfloor>fl (60000 / fl (spec_meanInterval w)) + 1 / 2\<rfloor>
                \<le> \<lfloor>60000 / spec_meanInterval w * (1 + 1 / 2 ^ 51) + 1 / 2\<rfloor>"
    if "0 < spec_meanInterval w"
    using estimate_rounding[OF that] by (intro conjI floor_mono) simp_all
  have four: "bpm (handleTap 1500 (handleTap 1000 (handleTap 500 (handleTap 0 s)))) = 120"
    if "tapTimes s = [] \<and> \<not> isSlowingDown s"
  proof -
    have w: "tapTimes (handleTap 1500 (handleTap 1000 (handleTap 500 (handleTap 0 s))))
             = [0, 500, 1000, 1500]"
      using that by (simp add: handleTap_window)
    show ?thesis
      using that
      by (simp add: handleTap_bpm_at[OF w estimate_regular(2)] estimate_regular(1) handleTap_slow)
  qed
  have two: "bpm (handleTap (t + 100) (handleTap t s)) = bpm s" if "tapTimes s = []"
  proof -
    have w: "tapTimes (handleTap (t + 100) (handleTap t s)) = [t, t + 100]"
      using that by (simp add: handleTap_window)
    have w1: "tapTimes (handleTap t s) = [t]"
      using that by (simp add: handleTap_window)
    have "bpm (handleTap (t + 100) (handleTap t s)) = bpm (handleTap t s)"
      by (simp add: handleTap_bpm_at[OF w estimate_fast])
    also have "\<dots> = bpm s"
      by (simp add: handleTap_bpm_at[OF w1 refl])
    finally show ?thesis .
  qed
  have uneven: "bpm (handleTap 1600 (handleTap 1066 (handleTap 533 (handleTap 0 s)))) = 112"
    if "tapTimes s = [] \<and> \<not> isSlowingDown s"
  proof -
    have w: "tapTimes (handleTap 1600 (handleTap 1066 (handleTap 533 (handleTap 0 s))))
             = [0, 533, 1066, 1600]"
      using that by (simp add: handleTap_window)
    show ?thesis
      using that
      by (simp add: handleTap_bpm_at[OF w estimate_uneven(2)] estimate_uneven(1) handleTap_slow)
  qed
  have half: "bpm (handleTap 960 (handleTap 0 s)) = 63"
    if "tapTimes s = [] \<and> \<not> isSlowingDown s"
  proof -
    have w: "tapTimes (handleTap 960 (handleTap 0 s)) = [0, 960]"
      using that by (simp add: handleTap_window)
    show ?thesis
      using that
      by (simp add: handleTap_bpm_at[OF w estimate_half(2)] estimate_half(1) handleTap_slow)
  qed
  show ?thesis using win len est mean near four two uneven half by blast
qed

theorem handleTap_estimate_witness:
  "length (tapTimes (initial True)) \<le> 8 \<and> tapTimes (initial True) = []
   \<and> \<not> isSlowingDown (initial True)
   \<and> tapTimes (handleTap 0 (initial True)) = [0]
   \<and> bpm (handleTap 1500 (handleTap 1000 (handleTap 500 (handleTap 0 (initial True))))) = 120
   \<and> bpm (handleTap 100 (handleTap 0 (initial True))) = 70
   \<and> bpm (handleTap 1600 (handleTap 1066 (handleTap 533 (handleTap 0 (initial True))))) = 112
   \<and> bpm (handleTap 960 (handleTap 0 (initial True))) = 63
   \<and> 0 \<in> (\<int> :: real set) \<and> 960 \<in> (\<int> :: real set) \<and> (960 :: real) < 2 ^ 53
   \<and> 0 < spec_meanInterval [0, 960]
   \<and> avgInterval (intervals [0, 960]) = fl (spec_meanInterval [0, 960])
   \<and> \<lfloor>fl (60000 / fl (spec_meanInterval [0, 960])) + 1 / 2\<rfloor> = 63"
proof -
  have h: "length (tapTimes (initial True)) \<le> 8" "tapTimes (initial True) = []"
    "\<not> isSlowingDown (initial True)" "bpm (initial True) = 70"
    by (simp_all add: initial_def)
  have hh: "tapTimes (initial True) = [] \<and> \<not> isSlowingDown (initial True)" using h by simp
  have m: "spec_meanInterval [0, 960] = 960" by (simp add: spec_meanInterval_def)
  have i: "(\<forall>x \<in> set [0, 960 :: real]. x \<in> \<int> \<and> 0 \<le> x \<and> x < 2 ^ 53) \<and> 2 \<le> length [0, 960 :: real]"
    by simp
  have p: "0 < spec_meanInterval [0, 960]" unfolding m by simp
  note inst = handleTap_estimate[OF h(1), of 0 "[0, 960]" 0]
  note rest = inst[THEN conjunct2, THEN conjunct2, THEN conjunct2]
  have w: "tapTimes (handleTap 0 (initial True)) = [0]"
    using inst[THEN conjunct1] h(2) by simp
  have a: "avgInterval (intervals [0, 960]) = fl (spec_meanInterval [0, 960])"
    using rest[THEN conjunct1, rule_format, OF i] .
  note rest2 = rest[THEN conjunct2, THEN conjunct2]
  have b4: "bpm (handleTap 1500 (handleTap 1000 (handleTap 500 (handleTap 0 (initial True))))) = 120"
    using rest2[THEN conjunct1, rule_format, OF hh] .
  have b2: "bpm (handleTap 100 (handleTap 0 (initial True))) = 70"
    using rest2[THEN conjunct2, THEN conjunct1, rule_format, OF h(2)] h(4) by simp
  have b5: "bpm (handleTap 1600 (handleTap 1066 (handleTap 533 (handleTap 0 (initial True))))) = 112"
    using rest2[THEN conjunct2, THEN conjunct2, THEN conjunct1, rule_format, OF hh] .
  have b6: "bpm (handleTap 960 (handleTap 0 (initial True))) = 63"
    using rest2[THEN conjunct2, THEN conjunct2, THEN conjunct2, rule_format, OF hh] .
  have q: "fl (60000 / 960) = 125 / 2"
    by (subst fl_eval_hi[of 5]) (simp_all add: roundEven_def)
  have f: "\<lfloor>fl (60000 / fl (spec_meanInterval [0, 960])) + 1 / 2\<rfloor> = 63"
  proof -
    have g: "fl 960 = 960" by simp
    show ?thesis unfolding m g q by simp
  qed
  show ?thesis using h(1-3) w b4 b2 b5 b6 p a f by simp
qed

subsection \<open>The slowdown ramp\<close>

lemma slowdownEffect_flag_kept:
  assumes "hasDecrementedThisCycleRef s" and "\<not> (90 < dotPosition s \<and> dotPosition s < 270)"
  shows "bpm (slowdownEffect now s) = bpm s \<and> hasDecrementedThisCycleRef (slowdownEffect now s)"
  using assms by (auto simp add: slowdownEffect_def Let_def)

lemma slowdownEffect_bpm_cases:
  "bpm (slowdownEffect now s) = bpm s
   \<or> (bpm (slowdownEffect now s) = bpm s - 5 \<and> hasDecrementedThisCycleRef (slowdownEffect now s))"
  by (simp add: slowdownEffect_def Let_def)

lemma slowdownSamples_flag_kept:
  assumes "hasDecrementedThisCycleRef s"
    and "\<forall>p \<in> set smps. \<not> (90 < snd p \<and> snd p < 270)"
  shows "bpm (slowdownSamples smps s) = bpm s"
  using assms
proof (induction smps arbitrary: s)
  case Nil
  then show ?case by (simp add: slowdownSamples_def)
next
  case (Cons p smps)
  let ?s1 = "slowdownSample p s"
  have "bpm ?s1 = bpm s \<and> hasDecrementedThisCycleRef ?s1"
    unfolding slowdownSample_def
    using slowdownEffect_flag_kept[of "s\<lparr>dotPosition := snd p\<rparr>" "fst p"] Cons.prems by simp
  moreover have "slowdownSamples (p # smps) s = slowdownSamples smps ?s1"
    by (simp add: slowdownSamples_def)
  ultimately show ?case using Cons.IH[of ?s1] Cons.prems by simp
qed

lemma slowdownSamples_once:
  assumes "\<forall>p \<in> set smps. \<not> (90 < snd p \<and> snd p < 270)"
  shows "bpm (slowdownSamples smps s) = bpm s \<or> bpm (slowdownSamples smps s) = bpm s - 5"
  using assms
proof (induction smps arbitrary: s)
  case Nil
  then show ?case by (simp add: slowdownSamples_def)
next
  case (Cons p smps)
  let ?s1 = "slowdownSample p s"
  have unroll: "slowdownSamples (p # smps) s = slowdownSamples smps ?s1"
    by (simp add: slowdownSamples_def)
  have rest: "\<forall>q \<in> set smps. \<not> (90 < snd q \<and> snd q < 270)"
    using Cons.prems by simp
  from slowdownEffect_bpm_cases[of "fst p" "s\<lparr>dotPosition := snd p\<rparr>"]
  consider (same) "bpm ?s1 = bpm s"
    | (dec) "bpm ?s1 = bpm s - 5" "hasDecrementedThisCycleRef ?s1"
    by (auto simp: slowdownSample_def)
  then show ?case
  proof cases
    case same
    with Cons.IH[OF rest, of ?s1] unroll show ?thesis by simp
  next
    case dec
    with slowdownSamples_flag_kept[OF dec(2) rest] unroll show ?thesis by simp
  qed
qed

text \<open>
  Claim C4. While the component is slowing down, playing and not upgraded: a sample
  within 5 degrees of the top with the per-cycle flag clear lowers the tempo by exactly 5
  and sets the flag, unless the lowered tempo would be 30 or less, in which case playback
  stops and the tempo stays; the tempo changes in no other way; a set flag is cleared only
  at a position strictly between 90 and 270 degrees; and over any run of samples that
  never enters that band the tempo is lowered at most once.
\<close>

theorem slowdownEffect_stepping:
  assumes "isSlowingDown s" and "isPlaying s" and "\<not> hasUpgraded s"
  shows "((dotPosition s \<le> 5 \<or> dotPosition s \<ge> 355) \<and> \<not> hasDecrementedThisCycleRef s \<longrightarrow>
            (if bpm s - 5 \<le> 30
             then bpm (slowdownEffect now s) = bpm s \<and> \<not> isPlaying (slowdownEffect now s)
             else bpm (slowdownEffect now s) = bpm s - 5 \<and> isPlaying (slowdownEffect now s)
                  \<and> hasDecrementedThisCycleRef (slowdownEffect now s)))
     \<and> (bpm (slowdownEffect now s) \<noteq> bpm s \<longrightarrow>
            (dotPosition s \<le> 5 \<or> dotPosition s \<ge> 355) \<and> \<not> hasDecrementedThisCycleRef s
            \<and> bpm (slowdownEffect now s) = bpm s - 5)
     \<and> (hasDecrementedThisCycleRef s \<and> \<not> hasDecrementedThisCycleRef (slowdownEffect now s)
            \<longrightarrow> 90 < dotPosition s \<and> dotPosition s < 270)
     \<and> ((\<forall>p \<in> set smps. \<not> (90 < snd p \<and> snd p < 270)) \<longrightarrow>
            bpm (slowdownSamples smps s) = bpm s \<or> bpm (slowdownSamples smps s) = bpm s - 5)"
proof -
  have a: "(dotPosition s \<le> 5 \<or> dotPosition s \<ge> 355) \<and> \<not> hasDecrementedThisCycleRef s \<longrightarrow>
            (if bpm s - 5 \<le> 30
             then bpm (slowdownEffect now s) = bpm s \<and> \<not> isPlaying (slowdownEffect now s)
             else bpm (slowdownEffect now s) = bpm s - 5 \<and> isPlaying (slowdownEffect now s)
                  \<and> hasDecrementedThisCycleRef (slowdownEffect now s))"
    using assms by (simp add: slowdownEffect_def Let_def MIN_BPM_def)
  have b: "bpm (slowdownEffect now s) \<noteq> bpm s \<longrightarrow>
            (dotPosition s \<le> 5 \<or> dotPosition s \<ge> 355) \<and> \<not> hasDecrementedThisCycleRef s
            \<and> bpm (slowdownEffect now s) = bpm s - 5"
    by (simp add: slowdownEffect_def Let_def split: if_splits)
  have c: "hasDecrementedThisCycleRef s \<and> \<not> hasDecrementedThisCycleRef (slowdownEffect now s)
            \<longrightarrow> 90 < dotPosition s \<and> dotPosition s < 270"
    by (simp add: slowdownEffect_def Let_def split: if_splits)
  from a b c slowdownSamples_once[of smps s] show ?thesis by blast
qed

theorem slowdownEffect_stepping_witness:
  "(let s = (initial True)\<lparr>bpm := 100, isPlaying := True, isSlowingDown := True, dotPosition := 2\<rparr>
    in isSlowingDown s \<and> isPlaying s \<and> \<not> hasUpgraded s
       \<and> dotPosition s \<le> 5 \<and> \<not> hasDecrementedThisCycleRef s
       \<and> bpm (slowdownEffect 10000 s) = 95
       \<and> hasDecrementedThisCycleRef (slowdownEffect 10000 s)
       \<and> bpm (slowdownSamples [(10000, 2), (10016, 4), (10032, 80), (10600, 358)] s) = 95
       \<and> bpm (slowdownSamples [(10000, 2), (10016, 4), (10300, 180), (10600, 358)] s) = 90)"
proof -
  let ?s = "(initial True)\<lparr>bpm := 100, isPlaying := True, isSlowingDown := True, dotPosition := 2\<rparr>"
  let ?smps = "[(10000, 2), (10016, 4), (10032, 80), (10600, 358)] :: (real \<times> real) list"
  have h: "isSlowingDown ?s" "isPlaying ?s" "\<not> hasUpgraded ?s"
    by (simp_all add: initial_def)
  have g: "(dotPosition ?s \<le> 5 \<or> dotPosition ?s \<ge> 355) \<and> \<not> hasDecrementedThisCycleRef ?s"
    by (simp add: initial_def)
  have b: "bpm ?s = 100"
    by (simp add: initial_def)
  note inst = slowdownEffect_stepping[OF h, of 10000 ?smps]
  from inst[THEN conjunct1, rule_format, OF g]
  have one: "bpm (slowdownEffect 10000 ?s) = 95 \<and> hasDecrementedThisCycleRef (slowdownEffect 10000 ?s)"
    unfolding b by simp
  have "\<forall>p \<in> set ?smps. \<not> (90 < snd p \<and> snd p < 270)"
    by simp
  with inst[THEN conjunct2, THEN conjunct2, THEN conjunct2]
  have "bpm (slowdownSamples ?smps ?s) = 100 \<or> bpm (slowdownSamples ?smps ?s) = 95"
    unfolding b by simp
  moreover have "bpm (slowdownSamples ?smps ?s) \<noteq> 100"
    by (simp add: slowdownSamples_def slowdownSample_def slowdownEffect_def Let_def initial_def
        MIN_BPM_def)
  moreover have "bpm (slowdownSamples [(10000, 2), (10016, 4), (10300, 180), (10600, 358)] ?s) = 90"
    by (simp add: slowdownSamples_def slowdownSample_def slowdownEffect_def Let_def initial_def
        MIN_BPM_def)
  ultimately show ?thesis
    unfolding Let_def using h g one by simp
qed

subsection \<open>The tempo stays within its bounds\<close>

lemma tempoInRange_iff: "tempoInRange b \<longleftrightarrow> b \<in> \<int> \<and> 30 \<le> b \<and> b \<le> 240"
proof -
  have "of_int \<lfloor>b\<rfloor> = b \<longleftrightarrow> b \<in> \<int>"
    by (metis Ints_of_int of_int_floor)
  then show ?thesis by (simp add: tempoInRange_def MIN_BPM_def MAX_BPM_def)
qed

lemma tempoInRange_up: "tempoInRange b \<Longrightarrow> b < 240 \<Longrightarrow> tempoInRange (b + 1)"
  unfolding tempoInRange_iff by (auto elim!: Ints_cases)

lemma tempoInRange_down: "tempoInRange b \<Longrightarrow> b > 30 \<Longrightarrow> tempoInRange (b - 1)"
  unfolding tempoInRange_iff by (auto elim!: Ints_cases)

lemma tempoInRange_slow: "tempoInRange b \<Longrightarrow> \<not> b - 5 \<le> 30 \<Longrightarrow> tempoInRange (b - 5)"
  unfolding tempoInRange_iff by auto

lemma tempoInRange_round:
  "30 \<le> Math_round x \<Longrightarrow> Math_round x \<le> 240 \<Longrightarrow> tempoInRange (Math_round x)"
  unfolding tempoInRange_iff by (simp add: Math_round_def)

lemma tempoInRange_stepBpm: "tempoInRange b \<Longrightarrow> tempoInRange (stepBpm c b)"
  by (cases c) (simp_all add: tempoInRange_up tempoInRange_down MAX_BPM_def MIN_BPM_def BPM_STEP_def)

text \<open>The host operations and the animation helpers leave the three tempo values alone.\<close>

lemma clearTimer_tempo [simp]:
  "bpm (clearTimer i s) = bpm s"
  "originalBpmRef (clearTimer i s) = originalBpmRef s"
  "currentBpmRef (clearTimer i s) = currentBpmRef s"
  by (simp_all add: clearTimer_def)

lemma clearRef_tempo [simp]:
  "originalBpmRef (clearRef r s) = originalBpmRef s"
  "currentBpmRef (clearRef r s) = currentBpmRef s"
  by (cases r; simp)+

lemma clearTimeouts_tempo [simp]:
  "bpm (clearTimeouts ids s) = bpm s"
  "originalBpmRef (clearTimeouts ids s) = originalBpmRef s"
  "currentBpmRef (clearTimeouts ids s) = currentBpmRef s"
  unfolding clearTimeouts_def by (induction ids arbitrary: s; simp)+

lemma setTimer_tempo [simp]:
  "bpm (setInterval cb ms now s) = bpm s"
  "originalBpmRef (setInterval cb ms now s) = originalBpmRef s"
  "currentBpmRef (setInterval cb ms now s) = currentBpmRef s"
  "bpm (setTimeout cb ms now s) = bpm s"
  "originalBpmRef (setTimeout cb ms now s) = originalBpmRef s"
  "currentBpmRef (setTimeout cb ms now s) = currentBpmRef s"
  by (simp_all add: setInterval_def setTimeout_def)

lemma cleanupAllIntervals_tempo [simp]:
  "bpm (cleanupAllIntervals v s) = bpm s"
  "originalBpmRef (cleanupAllIntervals v s) = originalBpmRef s"
  "currentBpmRef (cleanupAllIntervals v s) = currentBpmRef s"
  by (cases v; simp add: cleanupAllIntervals_def Let_def)+

lemma animation_tempo [simp]:
  "bpm (requestAnimationFrame s) = bpm s"
  "originalBpmRef (requestAnimationFrame s) = originalBpmRef s"
  "currentBpmRef (requestAnimationFrame s) = currentBpmRef s"
  "bpm (stopAnimation s) = bpm s"
  "originalBpmRef (stopAnimation s) = originalBpmRef s"
  "currentBpmRef (stopAnimation s) = currentBpmRef s"
  "bpm (resetTiming now s) = bpm s"
  "originalBpmRef (resetTiming now s) = originalBpmRef s"
  "currentBpmRef (resetTiming now s) = currentBpmRef s"
  "bpm (playClickTone s) = bpm s"
  "originalBpmRef (playClickTone s) = originalBpmRef s"
  "currentBpmRef (playClickTone s) = currentBpmRef s"
  by (simp_all add: requestAnimationFrame_def stopAnimation_def resetTiming_def playClickTone_def)

lemma setRefs_tempo [simp]:
  "bpm (setIntervalRef c r s) = bpm s"
  "originalBpmRef (setIntervalRef c r s) = originalBpmRef s"
  "currentBpmRef (setIntervalRef c r s) = currentBpmRef s"
  "bpm (setTimeoutsRef c l s) = bpm s"
  "originalBpmRef (setTimeoutsRef c l s) = originalBpmRef s"
  "currentBpmRef (setTimeoutsRef c l s) = currentBpmRef s"
  "bpm (setTouchActiveRef c b s) = bpm s"
  "originalBpmRef (setTouchActiveRef c b s) = originalBpmRef s"
  "currentBpmRef (setTouchActiveRef c b s) = currentBpmRef s"
  by (cases c; simp)+

text \<open>Each handler, effect and callback keeps the invariant.\<close>

lemma animate_tempo:
  "bpm (animate t s) = bpm s"
  "originalBpmRef (animate t s) = originalBpmRef s"
  "currentBpmRef (animate t s) = currentBpmRef s"
  by (simp_all add: animate_def Let_def)

lemma animate_invariant: "tempoInvariant s \<Longrightarrow> tempoInvariant (animate t s)"
  by (simp add: tempoInvariant_def animate_tempo)

lemma handleTap_invariant: "tempoInvariant s \<Longrightarrow> tempoInvariant (handleTap now s)"
proof -
  assume inv: "tempoInvariant s"
  have "originalBpmRef (handleTap now s) = originalBpmRef s"
    and "currentBpmRef (handleTap now s) = currentBpmRef s"
    by (simp_all add: handleTap_def Let_def playTapTone_def)
  moreover have "tempoInRange (bpm (handleTap now s))"
    using inv
    by (simp add: handleTap_bpm Let_def tempoInvariant_def calculatedBpm_def tempoInRange_round)
  ultimately show ?thesis using inv by (simp add: tempoInvariant_def)
qed

lemma playEffect_invariant: "tempoInvariant s \<Longrightarrow> tempoInvariant (playEffect v now s)"
  by (cases v) (simp_all add: tempoInvariant_def playEffect_def Let_def startAnimation_def)

lemma timeTracking_invariant:
  "tempoInvariant s \<Longrightarrow> tempoInvariant (timeTracking a b c s)"
  by (simp add: tempoInvariant_def timeTracking_def Let_def)

lemma slowdownEffect_invariant: "tempoInvariant s \<Longrightarrow> tempoInvariant (slowdownEffect now s)"
  by (simp add: tempoInvariant_def slowdownEffect_def Let_def MIN_BPM_def tempoInRange_slow)

lemma bpmEffect_invariant: "tempoInvariant s \<Longrightarrow> tempoInvariant (bpmEffect v now s)"
  by (cases v) (simp_all add: tempoInvariant_def bpmEffect_def startAnimation_def)

lemma togglePlay_invariant: "tempoInvariant s \<Longrightarrow> tempoInvariant (togglePlay v s)"
  by (cases v) (simp_all add: tempoInvariant_def togglePlay_def Let_def tempoInRange_iff)

lemma increaseTempo_invariant: "tempoInvariant s \<Longrightarrow> tempoInvariant (increaseTempo v s)"
  by (simp add: tempoInvariant_def increaseTempo_def MAX_BPM_def BPM_STEP_def tempoInRange_up)

lemma decreaseTempo_invariant: "tempoInvariant s \<Longrightarrow> tempoInvariant (decreaseTempo v s)"
  by (simp add: tempoInvariant_def decreaseTempo_def MIN_BPM_def BPM_STEP_def tempoInRange_down)

lemma debounced_invariant: "tempoInvariant s \<Longrightarrow> tempoInvariant (debounced v c now s)"
proof (cases c)
  case Increase
  assume "tempoInvariant s"
  then have "tempoInvariant (s\<lparr>lastIncreaseTimeRef := now\<rparr>)" by (simp add: tempoInvariant_def)
  from increaseTempo_invariant[OF this] \<open>tempoInvariant s\<close> Increase
  show ?thesis by (simp add: debouncedIncrease_def)
next
  case Decrease
  assume "tempoInvariant s"
  then have "tempoInvariant (s\<lparr>lastDecreaseTimeRef := now\<rparr>)" by (simp add: tempoInvariant_def)
  from decreaseTempo_invariant[OF this] \<open>tempoInvariant s\<close> Decrease
  show ?thesis by (simp add: debouncedDecrease_def)
qed

lemma holdStart_invariant: "tempoInvariant s \<Longrightarrow> tempoInvariant (holdStart v c now s)"
proof -
  assume "tempoInvariant s"
  then have "tempoInvariant (cleanupAllIntervals v s)" by (simp add: tempoInvariant_def)
  from debounced_invariant[OF this, of v c now] show ?thesis
    by (simp add: tempoInvariant_def holdStart_def Let_def)
qed

lemma holdEnd_invariant: "tempoInvariant s \<Longrightarrow> tempoInvariant (holdEnd c s)"
  by (simp add: tempoInvariant_def holdEnd_def Let_def)

lemma runCallback_invariant: "tempoInvariant s \<Longrightarrow> tempoInvariant (runCallback cb now s)"
  by (cases cb)
     (simp_all add: tempoInvariant_def Let_def tempoInRange_stepBpm
        timeTracking_invariant[unfolded tempoInvariant_def])

lemma fire_invariant: "tempoInvariant s \<Longrightarrow> tempoInvariant (fire t s)"
proof -
  assume inv: "tempoInvariant s"
  have "tempoInvariant (case period t of
          Some ms \<Rightarrow> s\<lparr>timers := map (\<lambda>u. if tid u = tid t then u\<lparr>due := due u + ms\<rparr> else u) (timers s)\<rparr>
        | None \<Rightarrow> clearTimer (tid t) s)"
    using inv by (simp add: tempoInvariant_def split: option.split)
  then show ?thesis unfolding fire_def Let_def by (rule runCallback_invariant)
qed

lemma handle_invariant: "tempoInvariant s \<Longrightarrow> tempoInvariant (handle v e s)"
proof (cases e)
  case (TouchStart c now)
  assume "tempoInvariant s"
  then have "tempoInvariant (setTouchActiveRef c True s)" by (simp add: tempoInvariant_def)
  from holdStart_invariant[OF this] \<open>tempoInvariant s\<close> TouchStart
  show ?thesis by (simp add: handleTouchStart_def)
next
  case (TouchEnd c)
  assume "tempoInvariant s"
  then have "tempoInvariant (setTouchActiveRef c False s)" by (simp add: tempoInvariant_def)
  from holdEnd_invariant[OF this] TouchEnd
  show ?thesis by (simp add: handleTouchEnd_def)
next
  case (TimerFires i)
  assume "tempoInvariant s"
  with TimerFires show ?thesis by (simp add: fire_invariant split: option.split)
qed (simp_all add: animate_invariant handleTap_invariant playEffect_invariant
      slowdownEffect_invariant bpmEffect_invariant togglePlay_invariant
      increaseTempo_invariant decreaseTempo_invariant holdStart_invariant holdEnd_invariant
      handleMouseDown_def handleMouseUp_def,
    simp_all add: tempoInvariant_def sessionEffect_def syncCurrentBpmRef_def syncDisplayBpm_def
      handle75Percent_def zoomEffect_def startTapMode_def handleUpgrade_def
      handleFiveMinuteSessions_def Let_def)

lemma step_invariant: "tempoInvariant s \<Longrightarrow> tempoInvariant (step v e s)"
  by (simp add: step_def handle_invariant)

lemma run_invariant: "tempoInvariant s \<Longrightarrow> tempoInvariant (run v es s)"
  unfolding run_def by (induction es arbitrary: s) (simp_all add: step_invariant)

lemma initial_invariant: "tempoInvariant (initial audio)"
  by (simp add: tempoInvariant_def tempoInRange_iff initial_def)


text \<open>
  Claim C8. From the initial tempo of 70, whatever handlers, effects and timers run, the
  tempo is an integer between 30 and 240. A step asked for at a bound is ignored: the
  tempo stays at the bound, and so does a tap whose estimate is out of range.
\<close>

theorem tempo_within_bounds:
  "tempoInRange (bpm (run v es (initial audio)))
   \<and> (bpm s = MAX_BPM \<longrightarrow> increaseTempo v s = s \<and> stepBpm Increase (bpm s) = bpm s)
   \<and> (bpm s = MIN_BPM \<longrightarrow> decreaseTempo v s = s \<and> stepBpm Decrease (bpm s) = bpm s)
   \<and> (\<not> (30 \<le> calculatedBpm (avgInterval (intervals (tapTimes (handleTap now s))))
           \<and> calculatedBpm (avgInterval (intervals (tapTimes (handleTap now s)))) \<le> 240)
        \<longrightarrow> bpm (handleTap now s) = bpm s)"
proof -
  have "tempoInvariant (run v es (initial audio))"
    by (rule run_invariant) (rule initial_invariant)
  then have "tempoInRange (bpm (run v es (initial audio)))"
    by (simp add: tempoInvariant_def)
  moreover have "bpm s = MAX_BPM \<longrightarrow> increaseTempo v s = s \<and> stepBpm Increase (bpm s) = bpm s"
    by (simp add: increaseTempo_def)
  moreover have "bpm s = MIN_BPM \<longrightarrow> decreaseTempo v s = s \<and> stepBpm Decrease (bpm s) = bpm s"
    by (simp add: decreaseTempo_def)
  moreover have "\<not> (30 \<le> calculatedBpm (avgInterval (intervals (tapTimes (handleTap now s))))
           \<and> calculatedBpm (avgInterval (intervals (tapTimes (handleTap now s)))) \<le> 240)
        \<longrightarrow> bpm (handleTap now s) = bpm s"
    using handleTap_bpm[of now s] by (auto simp: Let_def)
  ultimately show ?thesis by blast
qed

theorem tempo_within_bounds_witness:
  "tempoInRange (bpm (run Trial [MouseDown Increase 1000, TimerFires 1, Tap 2000, Tap 2100]
                       (initial True)))
   \<and> bpm ((initial True)\<lparr>bpm := 240\<rparr>) = MAX_BPM
   \<and> increaseTempo Trial ((initial True)\<lparr>bpm := 240\<rparr>) = (initial True)\<lparr>bpm := 240\<rparr>
   \<and> stepBpm Increase 240 = 240"
proof -
  note inst = tempo_within_bounds
    [of Trial "[MouseDown Increase 1000, TimerFires 1, Tap 2000, Tap 2100]" True
        "(initial True)\<lparr>bpm := 240\<rparr>" 0]
  have m: "bpm ((initial True)\<lparr>bpm := 240\<rparr>) = MAX_BPM"
    by (simp add: MAX_BPM_def)
  from inst[THEN conjunct1] inst[THEN conjunct2, THEN conjunct1, rule_format, OF m] m
  show ?thesis by simp
qed

text \<open>
  Claim C10. In every state the component can reach, the tempo and the copy of it that
  the frame callback divides by are strictly positive: the division \<open>60000 / currentBpm\<close> has
  a divisor that is not zero, and \<^verbatim>\<open>togglePlay\<close> never takes its branch for a tempo that is
  not positive, so it leaves the tempo and the displayed tempo as they are.
\<close>

theorem tempo_positive:
  "0 < bpm (run v es (initial audio))
   \<and> 0 < currentBpmRef (run v es (initial audio))
   \<and> \<not> bpm (run v es (initial audio)) \<le> 0
   \<and> bpm (togglePlay v (run v es (initial audio))) = bpm (run v es (initial audio))
   \<and> displayBpm (togglePlay v (run v es (initial audio))) = displayBpm (run v es (initial audio))"
proof -
  have "tempoInvariant (run v es (initial audio))"
    by (rule run_invariant) (rule initial_invariant)
  then have "30 \<le> bpm (run v es (initial audio))" and "30 \<le> currentBpmRef (run v es (initial audio))"
    by (simp_all add: tempoInvariant_def tempoInRange_iff)
  then show ?thesis
    by (cases v) (simp_all add: togglePlay_def Let_def)
qed

theorem tempo_positive_witness:
  "0 < bpm (run Trial [TogglePlay, PlayEffect 1000, Animate 1016] (initial True))
   \<and> 0 < currentBpmRef (run Trial [TogglePlay, PlayEffect 1000, Animate 1016] (initial True))"
  using tempo_positive[of Trial "[TogglePlay, PlayEffect 1000, Animate 1016]" True]
  by blast

subsection \<open>Timer bookkeeping\<close>

text \<open>Clearing timers changes the timer table and nothing else.\<close>

lemma clearTimer_fields [simp]:
  "isPlaying (clearTimer i s) = isPlaying s"
  "dotPosition (clearTimer i s) = dotPosition s"
  "scaleEffect (clearTimer i s) = scaleEffect s"
  "hasReached75Percent (clearTimer i s) = hasReached75Percent s"
  "displayBpm (clearTimer i s) = displayBpm s"
  "isSlowingDown (clearTimer i s) = isSlowingDown s"
  "showUpgradeMessage (clearTimer i s) = showUpgradeMessage s"
  "sessionCount (clearTimer i s) = sessionCount s"
  "isTrialExpired (clearTimer i s) = isTrialExpired s"
  "hasUpgraded (clearTimer i s) = hasUpgraded s"
  "tapTimes (clearTimer i s) = tapTimes s"
  "showTapButton (clearTimer i s) = showTapButton s"
  "tapTimeoutRef (clearTimer i s) = tapTimeoutRef s"
  "audioContextRef (clearTimer i s) = audioContextRef s"
  "animationRef (clearTimer i s) = animationRef s"
  "startTimeRef (clearTimer i s) = startTimeRef s"
  "lastBeatTimeRef (clearTimer i s) = lastBeatTimeRef s"
  "runningTimeRef (clearTimer i s) = runningTimeRef s"
  "timeTrackingIntervalRef (clearTimer i s) = timeTrackingIntervalRef s"
  "hasDecrementedThisCycleRef (clearTimer i s) = hasDecrementedThisCycleRef s"
  "increaseIntervalRef (clearTimer i s) = increaseIntervalRef s"
  "decreaseIntervalRef (clearTimer i s) = decreaseIntervalRef s"
  "increaseTimeoutsRef (clearTimer i s) = increaseTimeoutsRef s"
  "decreaseTimeoutsRef (clearTimer i s) = decreaseTimeoutsRef s"
  "increaseTouchActiveRef (clearTimer i s) = increaseTouchActiveRef s"
  "decreaseTouchActiveRef (clearTimer i s) = decreaseTouchActiveRef s"
  "lastIncreaseTimeRef (clearTimer i s) = lastIncreaseTimeRef s"
  "lastDecreaseTimeRef (clearTimer i s) = lastDecreaseTimeRef s"
  "nextTimerId (clearTimer i s) = nextTimerId s"
  "nextFrameId (clearTimer i s) = nextFrameId s"
  "tonesStarted (clearTimer i s) = tonesStarted s"
  by (simp_all add: clearTimer_def)

lemma clearRef_others [simp]:
  "isPlaying (clearRef r s) = isPlaying s"
  "dotPosition (clearRef r s) = dotPosition s"
  "scaleEffect (clearRef r s) = scaleEffect s"
  "hasReached75Percent (clearRef r s) = hasReached75Percent s"
  "displayBpm (clearRef r s) = displayBpm s"
  "showUpgradeMessage (clearRef r s) = showUpgradeMessage s"
  "sessionCount (clearRef r s) = sessionCount s"
  "isTrialExpired (clearRef r s) = isTrialExpired s"
  "hasUpgraded (clearRef r s) = hasUpgraded s"
  "showTapButton (clearRef r s) = showTapButton s"
  "tapTimeoutRef (clearRef r s) = tapTimeoutRef s"
  "audioContextRef (clearRef r s) = audioContextRef s"
  "animationRef (clearRef r s) = animationRef s"
  "startTimeRef (clearRef r s) = startTimeRef s"
  "lastBeatTimeRef (clearRef r s) = lastBeatTimeRef s"
  "runningTimeRef (clearRef r s) = runningTimeRef s"
  "timeTrackingIntervalRef (clearRef r s) = timeTrackingIntervalRef s"
  "hasDecrementedThisCycleRef (clearRef r s) = hasDecrementedThisCycleRef s"
  "increaseIntervalRef (clearRef r s) = increaseIntervalRef s"
  "decreaseIntervalRef (clearRef r s) = decreaseIntervalRef s"
  "increaseTimeoutsRef (clearRef r s) = increaseTimeoutsRef s"
  "decreaseTimeoutsRef (clearRef r s) = decreaseTimeoutsRef s"
  "increaseTouchActiveRef (clearRef r s) = increaseTouchActiveRef s"
  "decreaseTouchActiveRef (clearRef r s) = decreaseTouchActiveRef s"
  "lastIncreaseTimeRef (clearRef r s) = lastIncreaseTimeRef s"
  "lastDecreaseTimeRef (clearRef r s) = lastDecreaseTimeRef s"
  "nextFrameId (clearRef r s) = nextFrameId s"
  "tonesStarted (clearRef r s) = tonesStarted s"
  by (cases r; simp)+

lemma clearTimeouts_fields [simp]:
  "isPlaying (clearTimeouts ids s) = isPlaying s"
  "dotPosition (clearTimeouts ids s) = dotPosition s"
  "scaleEffect (clearTimeouts ids s) = scaleEffect s"
  "hasReached75Percent (clearTimeouts ids s) = hasReached75Percent s"
  "displayBpm (clearTimeouts ids s) = displayBpm s"
  "isSlowingDown (clearTimeouts ids s) = isSlowingDown s"
  "showUpgradeMessage (clearTimeouts ids s) = showUpgradeMessage s"
  "sessionCount (clearTimeouts ids s) = sessionCount s"
  "isTrialExpired (clearTimeouts ids s) = isTrialExpired s"
  "hasUpgraded (clearTimeouts ids s) = hasUpgraded s"
  "tapTimes (clearTimeouts ids s) = tapTimes s"
  "showTapButton (clearTimeouts ids s) = showTapButton s"
  "tapTimeoutRef (clearTimeouts ids s) = tapTimeoutRef s"
  "audioContextRef (clearTimeouts ids s) = audioContextRef s"
  "animationRef (clearTimeouts ids s) = animationRef s"
  "startTimeRef (clearTimeouts ids s) = startTimeRef s"
  "lastBeatTimeRef (clearTimeouts ids s) = lastBeatTimeRef s"
  "runningTimeRef (clearTimeouts ids s) = runningTimeRef s"
  "timeTrackingIntervalRef (clearTimeouts ids s) = timeTrackingIntervalRef s"
  "hasDecrementedThisCycleRef (clearTimeouts ids s) = hasDecrementedThisCycleRef s"
  "increaseIntervalRef (clearTimeouts ids s) = increaseIntervalRef s"
  "decreaseIntervalRef (clearTimeouts ids s) = decreaseIntervalRef s"
  "increaseTimeoutsRef (clearTimeouts ids s) = increaseTimeoutsRef s"
  "decreaseTimeoutsRef (clearTimeouts ids s) = decreaseTimeoutsRef s"
  "increaseTouchActiveRef (clearTimeouts ids s) = increaseTouchActiveRef s"
  "decreaseTouchActiveRef (clearTimeouts ids s) = decreaseTouchActiveRef s"
  "lastIncreaseTimeRef (clearTimeouts ids s) = lastIncreaseTimeRef s"
  "lastDecreaseTimeRef (clearTimeouts ids s) = lastDecreaseTimeRef s"
  "nextTimerId (clearTimeouts ids s) = nextTimerId s"
  "nextFrameId (clearTimeouts ids s) = nextFrameId s"
  "tonesStarted (clearTimeouts ids s) = tonesStarted s"
  unfolding clearTimeouts_def by (induction ids arbitrary: s; simp)+


subsection \<open>The zoom scale\<close>


lemma zoomEffect_idle: "\<not> isPlaying s \<Longrightarrow> scaleEffect (zoomEffect s) = 0.7"
  by (simp add: zoomEffect_def)












subsection \<open>Tempo changes and the timing anchor\<close>

text \<open>A manual step in the trial component while playing, followed by the effects that
  depend on the tempo, at time 2000: the anchor set at 1000 and the position 180 are
  still there.\<close>

theorem tempo_change_anchor_counterexample:
  "isPlaying (bpmChanged Trial 2000 (increaseTempo Trial
      ((initial True)\<lparr>isPlaying := True, startTimeRef := Some 1000,
                       lastBeatTimeRef := Some 1000, dotPosition := 180\<rparr>)))
   \<and> bpm (bpmChanged Trial 2000 (increaseTempo Trial
      ((initial True)\<lparr>isPlaying := True, startTimeRef := Some 1000,
                       lastBeatTimeRef := Some 1000, dotPosition := 180\<rparr>))) = 71
   \<and> startTimeRef (bpmChanged Trial 2000 (increaseTempo Trial
      ((initial True)\<lparr>isPlaying := True, startTimeRef := Some 1000,
                       lastBeatTimeRef := Some 1000, dotPosition := 180\<rparr>))) = Some 1000
   \<and> lastBeatTimeRef (bpmChanged Trial 2000 (increaseTempo Trial
      ((initial True)\<lparr>isPlaying := True, startTimeRef := Some 1000,
                       lastBeatTimeRef := Some 1000, dotPosition := 180\<rparr>))) \<noteq> Some 2000
   \<and> dotPosition (bpmChanged Trial 2000 (increaseTempo Trial
      ((initial True)\<lparr>isPlaying := True, startTimeRef := Some 1000,
                       lastBeatTimeRef := Some 1000, dotPosition := 180\<rparr>))) = 180"
  by (simp add: bpmChanged_def bpmEffect_def slowdownEffect_def syncDisplayBpm_def
      syncCurrentBpmRef_def increaseTempo_def initial_def MAX_BPM_def BPM_STEP_def)

text \<open>
  Claim C7, amended. In the plain component every tempo change while playing resets the
  anchor, \<open>startTime = lastBeatTime = now\<close>, and puts the position back to zero. In the
  trial component a tempo change outside the slowdown ramp leaves the anchor and the
  position as they are: the animation goes on from the old anchor.
\<close>

theorem bpmChanged_anchor:
  "(isPlaying s \<longrightarrow>
      startTimeRef (bpmChanged Basic now s) = Some now
      \<and> lastBeatTimeRef (bpmChanged Basic now s) = Some now
      \<and> dotPosition (bpmChanged Basic now s) = 0
      \<and> currentBpmRef (bpmChanged Basic now s) = bpm s)
   \<and> (\<not> isSlowingDown s \<longrightarrow>
      startTimeRef (bpmChanged Trial now s) = startTimeRef s
      \<and> lastBeatTimeRef (bpmChanged Trial now s) = lastBeatTimeRef s
      \<and> dotPosition (bpmChanged Trial now s) = dotPosition s
      \<and> currentBpmRef (bpmChanged Trial now s) = bpm s)"
  by (simp add: bpmChanged_def bpmEffect_def slowdownEffect_def syncDisplayBpm_def
      syncCurrentBpmRef_def startAnimation_def stopAnimation_def resetTiming_def
      requestAnimationFrame_def)

theorem bpmChanged_anchor_witness:
  "isPlaying ((initial True)\<lparr>isPlaying := True, startTimeRef := Some 1000,
                              lastBeatTimeRef := Some 1000, dotPosition := 180, bpm := 71\<rparr>)
   \<and> startTimeRef (bpmChanged Basic 2000
        ((initial True)\<lparr>isPlaying := True, startTimeRef := Some 1000,
                         lastBeatTimeRef := Some 1000, dotPosition := 180, bpm := 71\<rparr>)) = Some 2000
   \<and> lastBeatTimeRef (bpmChanged Basic 2000
        ((initial True)\<lparr>isPlaying := True, startTimeRef := Some 1000,
                         lastBeatTimeRef := Some 1000, dotPosition := 180, bpm := 71\<rparr>)) = Some 2000
   \<and> dotPosition (bpmChanged Basic 2000
        ((initial True)\<lparr>isPlaying := True, startTimeRef := Some 1000,
                         lastBeatTimeRef := Some 1000, dotPosition := 180, bpm := 71\<rparr>)) = 0"
proof -
  let ?s = "(initial True)\<lparr>isPlaying := True, startTimeRef := Some 1000,
                            lastBeatTimeRef := Some 1000, dotPosition := 180, bpm := 71\<rparr>"
  have h: "isPlaying ?s" by simp
  from bpmChanged_anchor[of ?s 2000, THEN conjunct1, rule_format, OF h] h
  show ?thesis by simp
qed

subsection \<open>The hold schedule under the ideal scheduler\<close>

lemma runTimers_numeral:
  "runTimers tb (numeral k) until s =
     (case nextTimer tb until s of
        None \<Rightarrow> Some (s, [])
      | Some t \<Rightarrow>
          (case runTimers tb (pred_numeral k) until (fire t s) of
             None \<Rightarrow> None
           | Some (s', trace) \<Rightarrow> Some (s', (due t, callback t) # trace)))"
  by (simp add: numeral_eq_Suc)

lemmas hold_defs =
  handleMouseDown_def handleMouseUp_def handleTouchStart_def handleTouchEnd_def
  holdStart_def holdEnd_def cleanupAllIntervals_def
  debouncedIncrease_def debouncedDecrease_def increaseTempo_def decreaseTempo_def
  setInterval_def setTimeout_def clearTimer_def clearTimeouts_def
  nextTimer_def fire_def Let_def runTimers_numeral
  MIN_BPM_def MAX_BPM_def BPM_STEP_def DEBOUNCE_TIME_def

lemma funpow_numeral_unfold: "(f ^^ numeral k) x = f ((f ^^ pred_numeral k) x)"
  by (simp add: numeral_eq_Suc)

lemma cleanupAllIntervals_fields [simp]:
  "nextTimerId (cleanupAllIntervals v s) = nextTimerId s"
  "increaseTimeoutsRef (cleanupAllIntervals v s) = []"
  "decreaseTimeoutsRef (cleanupAllIntervals v s) = []"
  "increaseTouchActiveRef (cleanupAllIntervals v s) = False"
  "decreaseTouchActiveRef (cleanupAllIntervals v s) = False"
  "isSlowingDown (cleanupAllIntervals v s) = isSlowingDown s"
  "lastIncreaseTimeRef (cleanupAllIntervals v s) = lastIncreaseTimeRef s"
  "lastDecreaseTimeRef (cleanupAllIntervals v s) = lastDecreaseTimeRef s"
  by (cases v; simp add: cleanupAllIntervals_def Let_def)+

lemma holdStart_timers:
  "length (timers (holdStart v c now s)) = length (timers (cleanupAllIntervals v s)) + 2"
  by (cases c)
     (simp_all add: holdStart_def Let_def setInterval_def setTimeout_def debouncedIncrease_def
        debouncedDecrease_def increaseTempo_def decreaseTempo_def)

lemma holdStart_bpm:
  assumes "DEBOUNCE_TIME \<le> now - lastTimeRef c s" and "v = Trial \<longrightarrow> \<not> isSlowingDown s"
  shows "bpm (holdStart v c now s) = stepBpm c (bpm s)"
  using assms
  by (cases c)
     (simp_all add: holdStart_def Let_def setInterval_def setTimeout_def debouncedIncrease_def
        debouncedDecrease_def increaseTempo_def decreaseTempo_def)

lemma holdStart_schedule:
  assumes "timers (cleanupAllIntervals v s) = []" and "0 < nextTimerId s"
  shows "map_option (\<lambda>(s', trace). (bpm s', trace))
           (runTimers tb 19 (T0 + 6000) (holdStart v c T0 s))
     = Some ((stepBpm c ^^ (if tb = OldestFirst then 19 else 18)) (bpm (holdStart v c T0 s)),
         map (\<lambda>(d, cb). (T0 + d, cb))
          ([(500, StepTick c), (1000, StepTick c), (1500, StepTick c), (2000, StepTick c),
            (2500, StepTick c)]
           @ (if tb = OldestFirst then [(3000, StepTick c)] else [])
           @ [(3000, FirstAcceleration v c),
              (3300, StepTick c), (3600, StepTick c), (3900, StepTick c), (4200, StepTick c),
              (4500, StepTick c), (4800, StepTick c),
              (5000, SecondAcceleration v c),
              (5200, StepTick c), (5400, StepTick c), (5600, StepTick c), (5800, StepTick c),
              (6000, StepTick c)]))"
proof -
  define s1 where "s1 = cleanupAllIntervals v s"
  have c: "timers s1 = []" "nextTimerId s1 = nextTimerId s"
    "increaseTimeoutsRef s1 = []" "decreaseTimeoutsRef s1 = []"
    using assms(1) by (simp_all add: s1_def)
  show ?thesis
    using assms(2) c unfolding holdStart_def s1_def[symmetric]
    by (cases c; cases v; cases tb)
       (simp_all add: debouncedIncrease_def debouncedDecrease_def increaseTempo_def
          decreaseTempo_def setInterval_def setTimeout_def clearTimer_def clearTimeouts_def
          nextTimer_def fire_def Let_def runTimers_numeral funpow_numeral_unfold
          del: stepBpm.simps)
qed


text \<open>
  Claim C5. A press on a tempo control (mouse or touch, either control, either
  component) at time \<open>T0\<close>, with no other timer pending once the press handler has run,
  applies one step at once (when the debounce window and, in the trial component, the
  slowdown ramp allow it); then, under the ideal scheduler and for either order among
  timers due at the same instant, the steps of the next 6000 ms are the repeats at 500,
  1000, ..., 2500 (and 3000 when the older timer goes first), the extra step of the first
  switch at exactly 3000, the repeats every 300 ms from 3300 to 4800, the extra step of the
  second switch at exactly 5000, and the repeats every 200 ms from 5200 to 6000. Every
  entry of the trace applies one step to the tempo.
\<close>

theorem hold_acceleration_schedule:
  assumes "p = handleMouseDown v c T0 s \<or> p = handleTouchStart v c T0 s"
    and "\<not> touchActiveRef c s"
    and "length (timers p) = 2"
    and "0 < nextTimerId s"
  shows "(DEBOUNCE_TIME \<le> T0 - lastTimeRef c s \<and> (v = Trial \<longrightarrow> \<not> isSlowingDown s)
            \<longrightarrow> bpm p = stepBpm c (bpm s))
     \<and> map_option (\<lambda>(s', trace). (bpm s', trace)) (runTimers tb 19 (T0 + 6000) p)
       = Some ((stepBpm c ^^ (if tb = OldestFirst then 19 else 18)) (bpm p),
           map (\<lambda>(d, cb). (T0 + d, cb))
            ([(500, StepTick c), (1000, StepTick c), (1500, StepTick c), (2000, StepTick c),
              (2500, StepTick c)]
             @ (if tb = OldestFirst then [(3000, StepTick c)] else [])
             @ [(3000, FirstAcceleration v c),
                (3300, StepTick c), (3600, StepTick c), (3900, StepTick c), (4200, StepTick c),
                (4500, StepTick c), (4800, StepTick c),
                (5000, SecondAcceleration v c),
                (5200, StepTick c), (5400, StepTick c), (5600, StepTick c), (5800, StepTick c),
                (6000, StepTick c)]))"
proof -
  obtain s0 where p: "p = holdStart v c T0 s0"
    and same: "bpm s0 = bpm s" "lastTimeRef c s0 = lastTimeRef c s"
      "isSlowingDown s0 = isSlowingDown s" "nextTimerId s0 = nextTimerId s"
  proof (cases "p = handleMouseDown v c T0 s")
    case True
    with assms(2) have "p = holdStart v c T0 s" by (simp add: handleMouseDown_def)
    then show ?thesis using that[of s] by simp
  next
    case False
    with assms(1,2) have "p = holdStart v c T0 (setTouchActiveRef c True s)"
      by (simp add: handleTouchStart_def)
    then show ?thesis using that[of "setTouchActiveRef c True s"] by (cases c) simp_all
  qed
  have empty: "timers (cleanupAllIntervals v s0) = []"
    using assms(3) holdStart_timers[of v c T0 s0] by (simp add: p)
  have pos: "0 < nextTimerId s0" using assms(4) same by simp
  have "DEBOUNCE_TIME \<le> T0 - lastTimeRef c s \<and> (v = Trial \<longrightarrow> \<not> isSlowingDown s)
            \<longrightarrow> bpm p = stepBpm c (bpm s)"
    using holdStart_bpm[of T0 c s0 v] same by (simp add: p)
  with holdStart_schedule[OF empty pos, of tb T0 c] show ?thesis
    unfolding p by blast
qed

theorem hold_acceleration_schedule_witness:
  "\<not> touchActiveRef Increase (initial True)
   \<and> length (timers (handleMouseDown Basic Increase 1000 (initial True))) = 2
   \<and> 0 < nextTimerId (initial True)
   \<and> DEBOUNCE_TIME \<le> 1000 - lastTimeRef Increase (initial True)
   \<and> bpm (initial True) = 70
   \<and> bpm (handleMouseDown Basic Increase 1000 (initial True)) = 71
   \<and> map_option (\<lambda>(s', trace). (bpm s', trace))
        (runTimers OldestFirst 19 (1000 + 6000) (handleMouseDown Basic Increase 1000 (initial True)))
      = Some (90,
          [(1500, StepTick Increase), (2000, StepTick Increase), (2500, StepTick Increase),
           (3000, StepTick Increase), (3500, StepTick Increase), (4000, StepTick Increase),
           (4000, FirstAcceleration Basic Increase),
           (4300, StepTick Increase), (4600, StepTick Increase), (4900, StepTick Increase),
           (5200, StepTick Increase), (5500, StepTick Increase), (5800, StepTick Increase),
           (6000, SecondAcceleration Basic Increase),
           (6200, StepTick Increase), (6400, StepTick Increase), (6600, StepTick Increase),
           (6800, StepTick Increase), (7000, StepTick Increase)])"
proof -
  let ?p = "handleMouseDown Basic Increase 1000 (initial True)"
  have h1: "?p = handleMouseDown Basic Increase 1000 (initial True)
            \<or> ?p = handleTouchStart Basic Increase 1000 (initial True)" by simp
  have h2: "\<not> touchActiveRef Increase (initial True)" by (simp add: initial_def)
  have h3: "length (timers ?p) = 2"
    by (simp add: handleMouseDown_def holdStart_timers h2[simplified] initial_def
        cleanupAllIntervals_def clearTimeouts_def)
  have h4: "0 < nextTimerId (initial True)" by (simp add: initial_def)
  have h5: "DEBOUNCE_TIME \<le> 1000 - lastTimeRef Increase (initial True)
            \<and> (Basic = Trial \<longrightarrow> \<not> isSlowingDown (initial True))"
    by (simp add: initial_def DEBOUNCE_TIME_def)
  have b: "bpm (initial True) = 70" by (simp add: initial_def)
  note inst = hold_acceleration_schedule[OF h1 h2 h3 h4, of OldestFirst]
  from inst[THEN conjunct1, rule_format, OF h5]
  have b1: "bpm ?p = 71" unfolding b by (simp add: MAX_BPM_def BPM_STEP_def)
  from inst[THEN conjunct2]
  have "map_option (\<lambda>(s', trace). (bpm s', trace)) (runTimers OldestFirst 19 (1000 + 6000) ?p)
      = Some (90,
          [(1500, StepTick Increase), (2000, StepTick Increase), (2500, StepTick Increase),
           (3000, StepTick Increase), (3500, StepTick Increase), (4000, StepTick Increase),
           (4000, FirstAcceleration Basic Increase),
           (4300, StepTick Increase), (4600, StepTick Increase), (4900, StepTick Increase),
           (5200, StepTick Increase), (5500, StepTick Increase), (5800, StepTick Increase),
           (6000, SecondAcceleration Basic Increase),
           (6200, StepTick Increase), (6400, StepTick Increase), (6600, StepTick Increase),
           (6800, StepTick Increase), (7000, StepTick Increase)])"
    unfolding b1 by (simp add: funpow_numeral_unfold MAX_BPM_def BPM_STEP_def)
  with h2 h3 h4 h5 b b1 show ?thesis by blast
qed

subsection \<open>Release after the second acceleration of a decrease hold\<close>

text \<open>
  Claim C6 at a failing input. In the trial component the decrease control is pressed at
  1000 ms and held for 5100 ms, so the second acceleration has run, and is then released
  (mouse or touch). The release handler clears \<^verbatim>\<open>decreaseIntervalRef\<close> and the pending
  timeouts, but the 200 ms interval was stored in \<^verbatim>\<open>increaseIntervalRef\<close>: it stays in the
  host's table and goes on lowering the tempo, from 55 to 53 within the next 400 ms. The
  same input in the plain component leaves no timer behind and the tempo stays at 55.
\<close>

theorem decrease_release_leaves_interval:
  "(case runTimers OldestFirst 30 6100 (handleDecreaseMouseDown Trial 1000 (initial True)) of
      None \<Rightarrow> False
    | Some (s, held) \<Rightarrow>
        bpm s = 55
        \<and> map callback (timers (handleDecreaseMouseUp s)) = [StepTick Decrease]
        \<and> (case runTimers OldestFirst 30 6500 (handleDecreaseMouseUp s) of
              None \<Rightarrow> False
            | Some (s', after) \<Rightarrow>
                after = [(6200, StepTick Decrease), (6400, StepTick Decrease)] \<and> bpm s' = 53))
   \<and> (case runTimers OldestFirst 30 6100 (handleDecreaseTouchStart Trial 1000 (initial True)) of
      None \<Rightarrow> False
    | Some (s, held) \<Rightarrow>
        bpm s = 55
        \<and> map callback (timers (handleDecreaseTouchEnd s)) = [StepTick Decrease]
        \<and> (case runTimers OldestFirst 30 6500 (handleDecreaseTouchEnd s) of
              None \<Rightarrow> False
            | Some (s', after) \<Rightarrow>
                after = [(6200, StepTick Decrease), (6400, StepTick Decrease)] \<and> bpm s' = 53))
   \<and> (case runTimers OldestFirst 30 6100 (handleDecreaseMouseDown Basic 1000 (initial True)) of
      None \<Rightarrow> False
    | Some (s, held) \<Rightarrow>
        bpm s = 55
        \<and> timers (handleDecreaseMouseUp s) = []
        \<and> (case runTimers OldestFirst 30 6500 (handleDecreaseMouseUp s) of
              None \<Rightarrow> False
            | Some (s', after) \<Rightarrow> after = [] \<and> bpm s' = 55))"
  by (simp add: hold_defs initial_def)

theorem decrease_release_leaves_interval_witness:
  "runTimers OldestFirst 30 6100 (handleDecreaseMouseDown Trial 1000 (initial True)) \<noteq> None"
proof
  assume none: "runTimers OldestFirst 30 6100 (handleDecreaseMouseDown Trial 1000 (initial True)) = None"
  from decrease_release_leaves_interval[THEN conjunct1] show False
    unfolding none by (simp only: option.case)
qed

end
